theory Spec2Isabelle
  imports Complex_Main "HOL-Library.AList"
begin

section \<open>Conventions of the embedding\<close>

text \<open>
  The development embeds \<^verbatim>\<open>barcode/writer.py\<close>, \<^verbatim>\<open>barcode/base.py\<close> and
  \<^verbatim>\<open>barcode/__init__.py\<close>.

  \<^item> Python numbers that hold millimetres, points and DPI values are modelled as
    \<^typ>\<open>real\<close>. The arithmetic of the source is read as exact arithmetic, except in
    \<open>calculate_size_fp\<close>, where every result is rounded to a double: the pixel sizes are
    truncated, so there the rounding can matter. Module counts and run lengths are
    Python integers and are modelled as \<^typ>\<open>int\<close>.
  \<^item> A Python \<^verbatim>\<open>str\<close> is a \<^typ>\<open>string\<close>; one \<^typ>\<open>char\<close> stands for one code point
    below 256.
  \<^item> Every exception the modelled code can raise is a value of \<open>error\<close>; a function
    that can raise returns \<open>error + 'a\<close> with \<open>Inl\<close> for the exception.
\<close>

datatype error =
    BarcodeNotFoundError string
  | ValueError string
  | TypeError string
  | NameError string
  | UnboundLocalError string
  | AttributeError string
  | ZeroDivisionError
  | IndexError
  | SystemExit int

section \<open>The writer options (\<^verbatim>\<open>BaseWriter.__init__\<close>)\<close>

record writer =
  module_width :: real
  module_height :: real
  font_size :: real
  quiet_zone :: real
  background :: string
  foreground :: string
  write_text :: bool
  "text" :: string
  human :: string
  text_distance :: real
  text_line_distance :: real
  center_text :: bool

text \<open>The attribute values assigned by \<^verbatim>\<open>BaseWriter.__init__\<close>.\<close>

definition BaseWriter_init :: writer where
  "BaseWriter_init =
     \<lparr>module_width = 10, module_height = 10, font_size = 10, quiet_zone = 6.5,
      background = ''white'', foreground = ''black'', write_text = True,
      text = '''', human = '''', text_distance = 5, text_line_distance = 1,
      center_text = True\<rparr>"

text \<open>
  \<^verbatim>\<open>Barcode.default_writer_options\<close> of \<^verbatim>\<open>base.py\<close>, stored on a fresh writer: the
  configuration every barcode obtained from \<^verbatim>\<open>get\<close> starts with.
\<close>

definition default_writer :: writer where
  "default_writer =
     BaseWriter_init\<lparr>module_width := 0.2, module_height := 15.0, quiet_zone := 6.5,
       font_size := 10, text_distance := 5.0, background := ''white'',
       foreground := ''black'', write_text := True, text := ''''\<rparr>"

section \<open>Run-length packing of one line (\<^verbatim>\<open>BaseWriter.render\<close>, inner loop)\<close>

text \<open>
  One iteration of \<^verbatim>\<open>for i in range(0, len(line) - 1)\<close>; the state is the pair
  \<open>(c, mlist)\<close>. Both index reads stay below \<open>length line\<close> for every \<open>i\<close> of the range.
\<close>

definition mlist_step :: "string \<Rightarrow> int \<times> int list \<Rightarrow> nat \<Rightarrow> int \<times> int list" where
  "mlist_step line s i =
     (case s of (c, mlist) \<Rightarrow>
        if line ! i = line ! (i + 1) then (c + 1, mlist)
        else if line ! i = CHR ''1'' then (1, mlist @ [c])
        else (1, mlist @ [- c]))"

text \<open>The state after the first \<open>k\<close> iterations, starting from \<open>c = 1\<close>, \<open>mlist = []\<close>.\<close>

definition mlist_loop :: "string \<Rightarrow> nat \<Rightarrow> int \<times> int list" where
  "mlist_loop line k = fold (\<lambda>i s. mlist_step line s i) [0..<k] (1, [])"

text \<open>\<^verbatim>\<open>line += " "\<close>, then the loop over \<open>range(0, len(line) - 1)\<close>; the result is \<open>mlist\<close>.\<close>

definition pack_line :: "string \<Rightarrow> int list" where
  "pack_line line0 =
     (let line = line0 @ '' '' in snd (mlist_loop line (length line - 1)))"

text \<open>
  The reconstitution named by the specification: a token stands for as many modules
  as its absolute value, of the colour its sign gives. The sign test is the one
  \<^verbatim>\<open>render\<close> uses to choose the colour (\<^verbatim>\<open>mod < 1\<close> is background).
\<close>

definition expand_token :: "int \<Rightarrow> string" where
  "expand_token m = replicate (nat \<bar>m\<bar>) (if m < 1 then CHR ''0'' else CHR ''1'')"

definition expand_tokens :: "int list \<Rightarrow> string" where
  "expand_tokens ms = concat (map expand_token ms)"

fun alternating :: "int list \<Rightarrow> bool" where
  "alternating (a # b # ms) = ((a < 1) \<noteq> (b < 1) \<and> alternating (b # ms))"
| "alternating _ = True"

definition binary_line :: "string \<Rightarrow> bool" where
  "binary_line line = list_all (\<lambda>ch. ch = CHR ''0'' \<or> ch = CHR ''1'') line"

text \<open>The loop invariant of the packing loop before iteration \<open>k\<close>.\<close>

definition run_inv :: "string \<Rightarrow> string \<Rightarrow> nat \<Rightarrow> int \<times> int list \<Rightarrow> bool" where
  "run_inv line0 line k s =
     (case s of (c, mlist) \<Rightarrow>
        1 \<le> c \<and>
        expand_tokens mlist @ replicate (nat c) (line ! k) = take (Suc k) line \<and>
        alternating mlist \<and> 0 \<notin> set mlist \<and>
        (k < length line0 \<longrightarrow> mlist \<noteq> [] \<longrightarrow>
           (last mlist < 1) \<noteq> (line ! k \<noteq> CHR ''1'')))"

section \<open>Size of the image (\<^verbatim>\<open>mm2px\<close>, \<^verbatim>\<open>pt2mm\<close>, \<^verbatim>\<open>BaseWriter.calculate_size\<close>)\<close>

definition mm2px :: "real \<Rightarrow> real \<Rightarrow> real" where
  "mm2px mm dpi = (mm * dpi) / 25.4"

definition pt2mm :: "real \<Rightarrow> real" where
  "pt2mm pt = pt * 0.352777778"

text \<open>Python's \<^verbatim>\<open>int(x)\<close> on a float: truncation towards zero.\<close>

definition py_int :: "real \<Rightarrow> int" where
  "py_int x = (if 0 \<le> x then \<lfloor>x\<rfloor> else \<lceil>x\<rceil>)"

text \<open>
  \<^verbatim>\<open>str.splitlines()\<close>: a line ends at a line boundary character, a carriage return
  followed by a line feed is one boundary, and no empty line is reported after the
  last boundary. Of the boundaries of \<^verbatim>\<open>str\<close> those below code point 256 are listed;
  \<open>cur\<close> is the line read so far.
\<close>

definition is_linebreak :: "char \<Rightarrow> bool" where
  "is_linebreak ch =
     (ch \<in> {CHR 0x0A, CHR 0x0B, CHR 0x0C, CHR 0x0D, CHR 0x1C, CHR 0x1D, CHR 0x1E, CHR 0x85})"

fun splitlines_from :: "string \<Rightarrow> string \<Rightarrow> string list" where
  "splitlines_from cur [] = (if cur = [] then [] else [cur])"
| "splitlines_from cur (ch # rest) =
     (if ch = CHR 0x0D \<and> rest \<noteq> [] \<and> hd rest = CHR 0x0A
      then cur # splitlines_from [] (tl rest)
      else if is_linebreak ch then cur # splitlines_from [] rest
      else splitlines_from (cur @ [ch]) rest)"

definition splitlines :: "string \<Rightarrow> string list" where
  "splitlines s = splitlines_from [] s"

text \<open>
  The values of the locals \<^verbatim>\<open>width\<close> and \<^verbatim>\<open>height\<close> (millimetres) when
  \<^verbatim>\<open>calculate_size\<close> reaches its \<^verbatim>\<open>return\<close>. The guard is the source's
  \<^verbatim>\<open>if self.font_size and self.text\<close>: a number is true when it is not zero, a string
  when it is not empty. The division by \<^verbatim>\<open>2 * dpi / 200\<close> raises when that is zero.
\<close>

definition calculate_size_mm ::
  "'a writer_scheme \<Rightarrow> int \<Rightarrow> int \<Rightarrow> real \<Rightarrow> error + (real \<times> real)" where
  "calculate_size_mm w modules_per_line number_of_lines dpi =
     (let width = 2 * quiet_zone w + of_int modules_per_line * module_width w;
          height = 2.0 + module_height w * of_int number_of_lines;
          number_of_text_lines = int (length (splitlines (text w)))
      in if font_size w \<noteq> 0 \<and> text w \<noteq> [] then
           (if 2 * dpi / 200 = 0 then Inl ZeroDivisionError
            else
              let height1 = height
                    + (pt2mm (font_size w) / (2 * dpi / 200) * of_int number_of_text_lines
                       + text_distance w);
                  height2 = height1
                    + text_line_distance w * of_int (number_of_text_lines - 1)
              in Inr (width, height2))
         else Inr (width, height))"

text \<open>
  \<^verbatim>\<open>return int(mm2px(width, dpi)), int(mm2px(height, dpi))\<close>, in exact arithmetic; the
  result is that of the code wherever the exact pixel values are not next to an
  integer (\<open>calculate_size_fp\<close> below rounds as the code does).
\<close>

definition calculate_size ::
  "'a writer_scheme \<Rightarrow> int \<Rightarrow> int \<Rightarrow> real \<Rightarrow> error + (int \<times> int)" where
  "calculate_size w modules_per_line number_of_lines dpi =
     (case calculate_size_mm w modules_per_line number_of_lines dpi of
        Inl e \<Rightarrow> Inl e
      | Inr (width, height) \<Rightarrow> Inr (py_int (mm2px width dpi), py_int (mm2px height dpi)))"

text \<open>
  The text block height of the specification: what the text under the barcode adds
  to the height of the image, in millimetres; nothing when the guard fails.
\<close>

definition text_block_height :: "'a writer_scheme \<Rightarrow> real \<Rightarrow> real" where
  "text_block_height w dpi =
     (if font_size w \<noteq> 0 \<and> text w \<noteq> [] then
        pt2mm (font_size w) / (2 * dpi / 200) * real (length (splitlines (text w)))
        + text_distance w
        + text_line_distance w * (real (length (splitlines (text w))) - 1)
      else 0)"

section \<open>Size of the image in double arithmetic (\<^verbatim>\<open>BaseWriter.calculate_size\<close>)\<close>

text \<open>
  \<^verbatim>\<open>calculate_size\<close> truncates with \<^verbatim>\<open>int()\<close>, and a truncation can turn the rounding
  error of one floating point operation into a whole pixel. Here the function is
  modelled again with the rounding made explicit: \<open>fl\<close> is the rounding of a real
  number to a double, applied to the result of every operation on floats, to the
  literals \<^verbatim>\<open>25.4\<close> and \<^verbatim>\<open>0.352777778\<close> and to every integer that is converted to a
  float. The integers 2 and 200 and the float 2.0 are doubles. With the identity
  for \<open>fl\<close> these are the definitions of the section before.
\<close>

definition mm2px_fp :: "(real \<Rightarrow> real) \<Rightarrow> real \<Rightarrow> real \<Rightarrow> real" where
  "mm2px_fp fl mm dpi = fl (fl (mm * dpi) / fl 25.4)"

definition pt2mm_fp :: "(real \<Rightarrow> real) \<Rightarrow> real \<Rightarrow> real" where
  "pt2mm_fp fl pt = fl (pt * fl 0.352777778)"

text \<open>
  The locals \<^verbatim>\<open>width\<close> and \<^verbatim>\<open>height\<close> at the \<^verbatim>\<open>return\<close>, operation by operation in the
  order Python evaluates them. The division raises when the divisor it computed is
  zero.
\<close>

definition calculate_size_mm_fp ::
  "(real \<Rightarrow> real) \<Rightarrow> 'a writer_scheme \<Rightarrow> int \<Rightarrow> int \<Rightarrow> real \<Rightarrow> error + (real \<times> real)" where
  "calculate_size_mm_fp fl w modules_per_line number_of_lines dpi =
     (let width = fl (fl (2 * quiet_zone w) + fl (fl (of_int modules_per_line) * module_width w));
          height = fl (2 + fl (module_height w * fl (of_int number_of_lines)));
          number_of_text_lines = int (length (splitlines (text w)))
      in if font_size w \<noteq> 0 \<and> text w \<noteq> [] then
           (if fl (fl (2 * dpi) / 200) = 0 then Inl ZeroDivisionError
            else
              let height1 = fl (height
                    + fl (fl (fl (pt2mm_fp fl (font_size w) / fl (fl (2 * dpi) / 200))
                              * fl (of_int number_of_text_lines))
                          + text_distance w));
                  height2 = fl (height1
                    + fl (text_line_distance w * fl (of_int (number_of_text_lines - 1))))
              in Inr (width, height2))
         else Inr (width, height))"

definition calculate_size_fp ::
  "(real \<Rightarrow> real) \<Rightarrow> 'a writer_scheme \<Rightarrow> int \<Rightarrow> int \<Rightarrow> real \<Rightarrow> error + (int \<times> int)" where
  "calculate_size_fp fl w modules_per_line number_of_lines dpi =
     (case calculate_size_mm_fp fl w modules_per_line number_of_lines dpi of
        Inl e \<Rightarrow> Inl e
      | Inr (width, height) \<Rightarrow>
          Inr (py_int (mm2px_fp fl width dpi), py_int (mm2px_fp fl height dpi)))"

text \<open>
  What is assumed of the rounding: zero is a double, and a number whose magnitude
  lies between \<open>1 / 2 ^ 1022\<close> and \<open>2 ^ 1023\<close> is rounded with a relative error of at most
  \<open>1 / 2 ^ 53\<close>. Rounding to the nearest double does this: the range is that of the
  normal doubles, where neither overflow nor underflow occurs.
\<close>

definition double_rounding :: "(real \<Rightarrow> real) \<Rightarrow> bool" where
  "double_rounding fl =
     (fl 0 = 0 \<and>
      (\<forall>x. 1 / 2 ^ 1022 \<le> \<bar>x\<bar> \<and> \<bar>x\<bar> \<le> 2 ^ 1023 \<longrightarrow> \<bar>fl x - x\<bar> \<le> \<bar>x\<bar> / 2 ^ 53))"

text \<open>
  The factor by which one rounding can change a value, and the relation between a
  computed value \<open>a\<close> and the exact value \<open>b\<close> it stands for after at most \<open>k\<close>
  roundings: both are non-negative and within the factor \<open>rr ^ k\<close> of each other, and
  \<open>b\<close> is zero or lies between \<open>2\<close> to the \<open>-e\<close> and \<open>2\<close> to the \<open>e\<close>.
\<close>

definition rr :: real where
  "rr = 1 / (1 - 1 / 2 ^ 53)"

definition tracks :: "nat \<Rightarrow> nat \<Rightarrow> real \<Rightarrow> real \<Rightarrow> bool" where
  "tracks k e a b =
     (0 \<le> b \<and> b \<le> a * rr ^ k \<and> a \<le> b * rr ^ k \<and> (b = 0 \<or> (1 / 2 ^ e \<le> b \<and> b \<le> 2 ^ e)))"

text \<open>
  An exact value is far enough from the next integers for the truncation to be
  stable: it is at least its floor and less than the integer above, each with a
  relative margin of \<open>1 / 2 ^ 40\<close>.
\<close>

definition floor_stable :: "real \<Rightarrow> bool" where
  "floor_stable x =
     (of_int \<lfloor>x\<rfloor> * (1 + 1 / 2 ^ 40) \<le> x \<and> x * (1 + 1 / 2 ^ 40) < of_int \<lfloor>x\<rfloor> + 1)"

text \<open>
  Inputs of moderate size: every length is zero or between \<open>1 / 2 ^ 64\<close> and \<open>2 ^ 64\<close>, every
  count is between 0 and \<open>2 ^ 64\<close>, and the resolution is positive and in the same range.
  No operation of \<^verbatim>\<open>calculate_size\<close> overflows or underflows on such inputs.
\<close>

definition moderate :: "real \<Rightarrow> bool" where
  "moderate x = (x = 0 \<or> (1 / 2 ^ 64 \<le> x \<and> x \<le> 2 ^ 64))"

definition moderate_count :: "int \<Rightarrow> bool" where
  "moderate_count i = (0 \<le> i \<and> i \<le> 2 ^ 64)"

definition moderate_inputs :: "'a writer_scheme \<Rightarrow> int \<Rightarrow> int \<Rightarrow> real \<Rightarrow> bool" where
  "moderate_inputs w modules_per_line number_of_lines dpi =
     (moderate (quiet_zone w) \<and> moderate (module_width w) \<and> moderate (module_height w)
      \<and> moderate (font_size w) \<and> moderate (text_distance w)
      \<and> moderate (text_line_distance w)
      \<and> moderate_count modules_per_line \<and> moderate_count number_of_lines
      \<and> moderate_count (int (length (splitlines (text w))))
      \<and> 1 / 2 ^ 64 \<le> dpi \<and> dpi \<le> 2 ^ 64)"

text \<open>
  Two roundings with the largest error \<open>double_rounding\<close> allows, one always upwards
  and one always downwards, used as concrete inputs.
\<close>

definition round_up :: "real \<Rightarrow> real" where
  "round_up x = x * (1 + 1 / 2 ^ 53)"

definition round_down :: "real \<Rightarrow> real" where
  "round_down x = x * (1 - 1 / 2 ^ 53)"

section \<open>The paint protocol (\<^verbatim>\<open>BaseWriter.render\<close>)\<close>

text \<open>
  The four callbacks of a writer. A callback works on the state \<open>'s\<close> of the backend
  (the document or image under construction) and may raise; a callback that was not
  registered is \<open>None\<close>. \<open>finish\<close> returns the rendered output \<open>'r\<close>.
\<close>

record ('s, 'r) callbacks =
  initialize :: "(string list \<Rightarrow> 's \<Rightarrow> error + 's) option"
  paint_module :: "(real \<Rightarrow> real \<Rightarrow> real \<Rightarrow> string \<Rightarrow> 's \<Rightarrow> error + 's) option"
  paint_text :: "(real \<Rightarrow> real \<Rightarrow> 's \<Rightarrow> error + 's) option"
  finish :: "('s \<Rightarrow> error + 'r) option"

text \<open>\<^verbatim>\<open>self._callbacks["paint_module"](...)\<close>: calling \<^verbatim>\<open>None\<close> raises a TypeError.\<close>

definition call_paint_module ::
  "('s, 'r) callbacks \<Rightarrow> real \<Rightarrow> real \<Rightarrow> real \<Rightarrow> string \<Rightarrow> 's \<Rightarrow> error + 's" where
  "call_paint_module cb xpos ypos width color st =
     (case paint_module cb of
        None \<Rightarrow> Inl (TypeError ''NoneType object is not callable'')
      | Some f \<Rightarrow> f xpos ypos width color st)"

text \<open>\<^verbatim>\<open>for mod in mlist\<close>: paints the tokens of one line from \<open>xpos\<close> on; returns the
  final \<open>xpos\<close>.\<close>

fun paint_modules ::
  "('s, 'r) callbacks \<Rightarrow> 'a writer_scheme \<Rightarrow> real \<Rightarrow> int list \<Rightarrow> real \<Rightarrow> 's
     \<Rightarrow> error + (real \<times> 's)" where
  "paint_modules cb w ypos [] xpos st = Inr (xpos, st)"
| "paint_modules cb w ypos (m # mlist) xpos st =
     (let color = (if m < 1 then background w else foreground w) in
      case call_paint_module cb xpos ypos (module_width w * of_int \<bar>m\<bar>) color st of
        Inl e \<Rightarrow> Inl e
      | Inr st' \<Rightarrow> paint_modules cb w ypos mlist (xpos + module_width w * of_int \<bar>m\<bar>) st')"

text \<open>
  \<^verbatim>\<open>for cc, line in enumerate(code)\<close>, from line number \<open>cc\<close> on; \<open>n\<close> is \<^verbatim>\<open>len(code)\<close>.
  The loop state is \<open>ypos\<close>, the pair \<open>(bxs, bxe)\<close> (unbound before the first line) and
  the backend state.
\<close>

fun render_lines ::
  "('s, 'r) callbacks \<Rightarrow> 'a writer_scheme \<Rightarrow> nat \<Rightarrow> nat \<Rightarrow> string list \<Rightarrow> real
     \<Rightarrow> (real \<times> real) option \<Rightarrow> 's \<Rightarrow> error + (real \<times> (real \<times> real) option \<times> 's)" where
  "render_lines cb w n cc [] ypos bx st = Inr (ypos, bx, st)"
| "render_lines cb w n cc (line # rest) ypos bx st =
     (let mlist = pack_line line;
          xpos = quiet_zone w;
          bxs = xpos
      in case paint_modules cb w ypos mlist xpos st of
           Inl e \<Rightarrow> Inl e
         | Inr (xpos', st') \<Rightarrow>
             (let bxe = xpos' in
              case (if cc + 1 \<noteq> n
                    then call_paint_module cb xpos' ypos (quiet_zone w) (background w) st'
                    else Inr st') of
                Inl e \<Rightarrow> Inl e
              | Inr st'' \<Rightarrow>
                  render_lines cb w n (cc + 1) rest (ypos + module_height w)
                    (Some (bxs, bxe)) st''))"

text \<open>
  \<^verbatim>\<open>BaseWriter.render\<close>. The result is the output of \<open>finish\<close> together with the backend
  state the callbacks left behind. With an empty \<open>code\<close> the names \<^verbatim>\<open>bxs\<close> and \<^verbatim>\<open>bxe\<close>
  are unbound when the text is placed. An exception ends the rendering; the result
  is then the exception alone.
\<close>

definition render ::
  "('s, 'r) callbacks \<Rightarrow> 'a writer_scheme \<Rightarrow> string list \<Rightarrow> 's \<Rightarrow> error + ('r \<times> 's)" where
  "render cb w code st =
     (case (case initialize cb of None \<Rightarrow> Inr st | Some f \<Rightarrow> f code st) of
        Inl e \<Rightarrow> Inl e
      | Inr st1 \<Rightarrow>
          (case render_lines cb w (length code) 0 code 1.0 None st1 of
             Inl e \<Rightarrow> Inl e
           | Inr (ypos, bx, st2) \<Rightarrow>
               (case (if text w \<noteq> [] \<and> paint_text cb \<noteq> None then
                        (let ypos' = ypos + text_distance w in
                         case bx of
                           None \<Rightarrow> Inl (UnboundLocalError ''bxs'')
                         | Some (bxs, bxe) \<Rightarrow>
                             (let xpos = (if center_text w then bxs + ((bxe - bxs) / 2.0)
                                          else bxs)
                              in the (paint_text cb) xpos ypos' st2))
                      else Inr st2) of
                  Inl e \<Rightarrow> Inl e
                | Inr st3 \<Rightarrow>
                    (case finish cb of
                       None \<Rightarrow> Inl (TypeError ''NoneType object is not callable'')
                     | Some f \<Rightarrow>
                         (case f st3 of Inl e \<Rightarrow> Inl e | Inr out \<Rightarrow> Inr (out, st3))))))"

text \<open>
  A backend that records the calls it receives, in order: its state is the list of
  paint events so far and \<open>finish\<close> returns that list.
\<close>

datatype paint_event =
    Initialize "string list"
  | PaintModule real real real string
  | PaintText real real

definition recorder :: "(paint_event list, paint_event list) callbacks" where
  "recorder =
     \<lparr>initialize = Some (\<lambda>code st. Inr (st @ [Initialize code])),
      paint_module = Some (\<lambda>xpos ypos width color st. Inr (st @ [PaintModule xpos ypos width color])),
      paint_text = Some (\<lambda>xpos ypos st. Inr (st @ [PaintText xpos ypos])),
      finish = Some (\<lambda>st. Inr st)\<rparr>"

text \<open>
  The paint events the specification describes for line number \<open>cc\<close> of \<open>n\<close> lines:
  one rectangle per token, left to right from the quiet zone on, all at the height
  \<open>1 + cc * module_height\<close>, and after them one background rectangle of the width of the
  quiet zone unless the line is the last one.
\<close>

fun module_events :: "'a writer_scheme \<Rightarrow> real \<Rightarrow> real \<Rightarrow> int list \<Rightarrow> paint_event list" where
  "module_events w ypos xpos [] = []"
| "module_events w ypos xpos (m # ms) =
     PaintModule xpos ypos (module_width w * of_int \<bar>m\<bar>)
       (if m < 1 then background w else foreground w)
     # module_events w ypos (xpos + module_width w * of_int \<bar>m\<bar>) ms"

definition line_ypos :: "'a writer_scheme \<Rightarrow> nat \<Rightarrow> real" where
  "line_ypos w cc = 1 + real cc * module_height w"

definition body_end :: "'a writer_scheme \<Rightarrow> string \<Rightarrow> real" where
  "body_end w line = quiet_zone w + module_width w * of_int (\<Sum>m\<leftarrow>pack_line line. \<bar>m\<bar>)"

definition line_events :: "'a writer_scheme \<Rightarrow> nat \<Rightarrow> nat \<Rightarrow> string \<Rightarrow> paint_event list" where
  "line_events w n cc line =
     module_events w (line_ypos w cc) (quiet_zone w) (pack_line line)
     @ (if cc + 1 = n then []
        else [PaintModule (body_end w line) (line_ypos w cc) (quiet_zone w) (background w)])"

text \<open>The calls of \<open>paint_module\<close> among the recorded events, in order.\<close>

fun is_paint_module :: "paint_event \<Rightarrow> bool" where
  "is_paint_module (PaintModule xpos ypos width color) = True"
| "is_paint_module _ = False"

definition paint_module_events :: "paint_event list \<Rightarrow> paint_event list" where
  "paint_module_events evs = filter is_paint_module evs"

definition all_line_events :: "'a writer_scheme \<Rightarrow> string list \<Rightarrow> paint_event list" where
  "all_line_events w code =
     concat (map (\<lambda>(cc, line). line_events w (length code) cc line) (enumerate 0 code))"

text \<open>
  The horizontal position of the text the specification describes: the midpoint
  between the end of the left quiet zone and the end of the modules of the last line
  when the text is centred, the end of the left quiet zone otherwise.
\<close>

definition text_xpos :: "'a writer_scheme \<Rightarrow> string list \<Rightarrow> real" where
  "text_xpos w code =
     (if center_text w then (quiet_zone w + body_end w (last code)) / 2 else quiet_zone w)"

text \<open>A module sequence of two lines, used as a concrete input.\<close>

definition code2 :: "string list" where
  "code2 = [''101'', ''110'']"

text \<open>The default configuration with a text to print, used as a concrete input.\<close>

definition text_writer :: writer where
  "text_writer = default_writer\<lparr>text := ''1234''\<rparr>"

section \<open>Writer objects and their options (\<^verbatim>\<open>BaseWriter.set_options\<close>)\<close>

text \<open>
  \<^verbatim>\<open>set_options\<close> works by reflection (\<^verbatim>\<open>hasattr\<close>, \<^verbatim>\<open>setattr\<close>), so here the writer is
  seen as Python sees it: a dictionary of instance attributes, in insertion order,
  and the names its class defines. The values are dynamically typed.
\<close>

datatype pyval =
    PyNone
  | PyBool bool
  | PyInt int
  | PyFloat real
  | PyStr string
  | PyList "pyval list"
  | PyObject string

record py_object =
  inst_attrs :: "(string \<times> pyval) list"
  class_attrs :: "string list"

text \<open>Python's \<^verbatim>\<open>==\<close>: numbers (booleans included) compare by value, lists by elements,
  opaque objects by identity.\<close>

fun py_num :: "pyval \<Rightarrow> real option" where
  "py_num (PyBool b) = Some (if b then 1 else 0)"
| "py_num (PyInt i) = Some (of_int i)"
| "py_num (PyFloat x) = Some x"
| "py_num _ = None"

fun py_eq :: "pyval \<Rightarrow> pyval \<Rightarrow> bool"
  and py_eq_list :: "pyval list \<Rightarrow> pyval list \<Rightarrow> bool" where
  "py_eq PyNone b = (b = PyNone)"
| "py_eq (PyStr s) b = (b = PyStr s)"
| "py_eq (PyObject n) b = (b = PyObject n)"
| "py_eq (PyList xs) b = (case b of PyList ys \<Rightarrow> py_eq_list xs ys | _ \<Rightarrow> False)"
| "py_eq (PyBool x) b = (py_num b = py_num (PyBool x))"
| "py_eq (PyInt i) b = (py_num b = py_num (PyInt i))"
| "py_eq (PyFloat x) b = (py_num b = py_num (PyFloat x))"
| "py_eq_list [] ys = (ys = [])"
| "py_eq_list (x # xs) ys = (case ys of [] \<Rightarrow> False | y # ys' \<Rightarrow> py_eq x y \<and> py_eq_list xs ys')"

text \<open>\<^verbatim>\<open>needle in haystack\<close> for two strings.\<close>

fun starts_with :: "string \<Rightarrow> string \<Rightarrow> bool" where
  "starts_with [] s = True"
| "starts_with (a # t) [] = False"
| "starts_with (a # t) (b # s) = (a = b \<and> starts_with t s)"

fun py_str_contains :: "string \<Rightarrow> string \<Rightarrow> bool" where
  "py_str_contains t [] = (t = [])"
| "py_str_contains t (ch # s) = (starts_with t (ch # s) \<or> py_str_contains t s)"

text \<open>The operator \<^verbatim>\<open>val in container\<close>.\<close>

definition py_in :: "pyval \<Rightarrow> pyval \<Rightarrow> error + bool" where
  "py_in val container =
     (case container of
        PyList xs \<Rightarrow> Inr (list_ex (\<lambda>x. py_eq x val) xs)
      | PyStr s \<Rightarrow>
          (case val of
             PyStr t \<Rightarrow> Inr (py_str_contains t s)
           | _ \<Rightarrow> Inl (TypeError ''in <string> requires string as left operand''))
      | _ \<Rightarrow> Inl (TypeError ''argument is not iterable''))"

text \<open>\<^verbatim>\<open>key.lstrip("_")\<close>.\<close>

definition lstrip_underscore :: "string \<Rightarrow> string" where
  "lstrip_underscore key = dropWhile (\<lambda>ch. ch = CHR ''_'') key"

text \<open>
  \<^verbatim>\<open>hasattr(self, key)\<close>. \<^verbatim>\<open>file_type\<close> is a property of \<^verbatim>\<open>BaseWriter\<close> whose getter
  reads \<^verbatim>\<open>self._file_type\<close>; \<^verbatim>\<open>hasattr\<close> is false when the getter raises. The names
  a class inherits from \<^verbatim>\<open>object\<close> all start with an underscore and are not listed
  in \<open>class_attrs\<close>: no key stripped by \<^verbatim>\<open>lstrip("_")\<close> names one of them.
\<close>

definition has_plain_attr :: "py_object \<Rightarrow> string \<Rightarrow> bool" where
  "has_plain_attr self key =
     (case map_of (inst_attrs self) key of
        Some v \<Rightarrow> True
      | None \<Rightarrow> key \<in> set (class_attrs self))"

definition is_file_type_property :: "py_object \<Rightarrow> string \<Rightarrow> bool" where
  "is_file_type_property self key =
     (key = ''file_type'' \<and> ''file_type'' \<in> set (class_attrs self))"

definition hasattr :: "py_object \<Rightarrow> string \<Rightarrow> bool" where
  "hasattr self key =
     (if is_file_type_property self key then has_plain_attr self ''_file_type''
      else has_plain_attr self key)"

text \<open>
  \<^verbatim>\<open>setattr(self, key, val)\<close>. Assigning \<^verbatim>\<open>file_type\<close> runs the property setter, which
  raises a ValueError unless the value is in \<^verbatim>\<open>self.supported_file_types\<close>; any other
  name is stored in the instance dictionary.
\<close>

definition setattr :: "py_object \<Rightarrow> string \<Rightarrow> pyval \<Rightarrow> error + py_object" where
  "setattr self key val =
     (if is_file_type_property self key then
        (case map_of (inst_attrs self) ''supported_file_types'' of
           None \<Rightarrow> Inl (AttributeError ''supported_file_types'')
         | Some types \<Rightarrow>
             (case py_in val types of
                Inl e \<Rightarrow> Inl e
              | Inr True \<Rightarrow>
                  Inr (self\<lparr>inst_attrs := AList.update ''_file_type'' val (inst_attrs self)\<rparr>)
              | Inr False \<Rightarrow> Inl (ValueError ''file_type not supported'')))
      else Inr (self\<lparr>inst_attrs := AList.update key val (inst_attrs self)\<rparr>))"

text \<open>\<^verbatim>\<open>BaseWriter.set_options\<close>: \<open>options\<close> are the items of the dictionary, in order.\<close>

fun set_options :: "py_object \<Rightarrow> (string \<times> pyval) list \<Rightarrow> error + py_object" where
  "set_options self [] = Inr self"
| "set_options self ((key, val) # options) =
     (let key' = lstrip_underscore key in
      if hasattr self key' then
        (case setattr self key' val of
           Inl e \<Rightarrow> Inl e
         | Inr self' \<Rightarrow> set_options self' options)
      else set_options self options)"

text \<open>The names defined in the bodies of \<^verbatim>\<open>BaseWriter\<close> and \<^verbatim>\<open>SVGWriter\<close>, and the
  instance dictionary after \<^verbatim>\<open>SVGWriter.__init__\<close>.\<close>

definition BaseWriter_class_attrs :: "string list" where
  "BaseWriter_class_attrs =
     [''file_type'', ''calculate_size'', ''save'', ''register_callback'',
      ''set_options'', ''render'']"

definition SVGWriter_class_attrs :: "string list" where
  "SVGWriter_class_attrs =
     [''_init'', ''_create_module'', ''_create_text'', ''_finish'', ''save'']
     @ BaseWriter_class_attrs"

definition SVGWriter_object :: py_object where
  "SVGWriter_object =
     \<lparr>inst_attrs =
        [(''_callbacks'', PyObject ''callbacks''),
         (''module_width'', PyInt 10), (''module_height'', PyInt 10),
         (''font_size'', PyInt 10), (''quiet_zone'', PyFloat 6.5),
         (''background'', PyStr ''white''), (''foreground'', PyStr ''black''),
         (''write_text'', PyBool True), (''text'', PyStr ''''), (''human'', PyStr ''''),
         (''text_distance'', PyInt 5), (''text_line_distance'', PyInt 1),
         (''center_text'', PyBool True),
         (''supported_file_types'', PyList [PyStr ''SVG'']),
         (''_file_type'', PyStr ''SVG''),
         (''compress'', PyBool False), (''dpi'', PyFloat 25.4),
         (''_document'', PyNone), (''_root'', PyNone), (''_group'', PyNone)],
      class_attrs = SVGWriter_class_attrs\<rparr>"

section \<open>The registry (\<^verbatim>\<open>barcode/__init__.py\<close>)\<close>

datatype barcode_class =
    EAN8 | EAN13 | EAN14 | JAN | UPCA | ISBN13 | ISBN10 | ISSN
  | Code39 | PZN | Code128 | ITF | Gs1_128

text \<open>\<^verbatim>\<open>__BARCODE_MAP\<close>.\<close>

definition BARCODE_MAP :: "(string \<times> barcode_class) list" where
  "BARCODE_MAP =
     [(''ean8'', EAN8), (''ean13'', EAN13), (''ean'', EAN13), (''gtin'', EAN14),
      (''ean14'', EAN14), (''jan'', JAN), (''upc'', UPCA), (''upca'', UPCA),
      (''isbn'', ISBN13), (''isbn13'', ISBN13), (''gs1'', ISBN13), (''isbn10'', ISBN10),
      (''issn'', ISSN), (''code39'', Code39), (''pzn'', PZN), (''code128'', Code128),
      (''itf'', ITF), (''gs1_128'', Gs1_128)]"

text \<open>\<^verbatim>\<open>str.lower()\<close> on code points below 256: the letters A to Z and the upper case
  letters of Latin-1 move up by 32.\<close>

definition lower_char :: "char \<Rightarrow> char" where
  "lower_char ch =
     (let n = (of_char ch :: nat) in
      if (65 \<le> n \<and> n \<le> 90) \<or> (192 \<le> n \<and> n \<le> 222 \<and> n \<noteq> 215)
      then char_of (n + 32) else ch)"

definition py_lower :: "string \<Rightarrow> string" where
  "py_lower s = map lower_char s"

text \<open>
  A barcode object as far as \<^verbatim>\<open>get\<close> touches it: its class, its writer and its
  \<^verbatim>\<open>default_writer_options\<close>. The barcode classes themselves are not part of the
  modelled files; \<^verbatim>\<open>get\<close> takes their constructor call \<^verbatim>\<open>barcode(code, writer)\<close> as the
  parameter \<open>new_barcode\<close>.
\<close>

record barcode =
  bc_class :: barcode_class
  bc_writer :: py_object
  default_writer_options :: "(string \<times> pyval) list"

datatype get_result = BarcodeClass barcode_class | BarcodeObject barcode

text \<open>\<^verbatim>\<open>dict(defaults, **writer_options)\<close>.\<close>

definition dict_merge :: "(string \<times> pyval) list \<Rightarrow> (string \<times> pyval) list \<Rightarrow> (string \<times> pyval) list" where
  "dict_merge defaults overrides = fold (\<lambda>(k, v) d. AList.update k v d) overrides defaults"

text \<open>
  \<^verbatim>\<open>get(name, code, writer, writer_options)\<close>. A missing registry key raises
  \<^verbatim>\<open>BarcodeNotFoundError\<close>, whose message is built from \<open>name\<close>. A TypeError whose message
  contains \<^verbatim>\<open>unexpected keyword argument\<close> ends the process with \<^verbatim>\<open>exit(1)\<close> after
  printing a message.
\<close>

definition get ::
  "(barcode_class \<Rightarrow> string \<Rightarrow> py_object option \<Rightarrow> error + barcode) \<Rightarrow> string
     \<Rightarrow> string option \<Rightarrow> py_object option \<Rightarrow> (string \<times> pyval) list option
     \<Rightarrow> error + get_result" where
  "get new_barcode name code writer writer_options =
     (let writer_options' = (case writer_options of None \<Rightarrow> [] | Some opts \<Rightarrow> opts) in
      case map_of BARCODE_MAP (py_lower name) of
        None \<Rightarrow> Inl (BarcodeNotFoundError name)
      | Some barcode \<Rightarrow>
          (case code of
             None \<Rightarrow> Inr (BarcodeClass barcode)
           | Some c \<Rightarrow>
               (case (case new_barcode barcode c writer of
                        Inl e \<Rightarrow> Inl e
                      | Inr bc \<Rightarrow>
                          (case set_options (bc_writer bc)
                                  (dict_merge (default_writer_options bc) writer_options') of
                             Inl e \<Rightarrow> Inl e
                           | Inr w' \<Rightarrow> Inr (BarcodeObject (bc\<lparr>bc_writer := w'\<rparr>)))) of
                  Inl (TypeError msg) \<Rightarrow>
                    if py_str_contains ''unexpected keyword argument'' msg
                    then Inl (SystemExit 1) else Inl (TypeError msg)
                | Inl e \<Rightarrow> Inl e
                | Inr r \<Rightarrow> Inr r)))"

text \<open>
  \<^verbatim>\<open>Barcode.default_writer_options\<close> as a dictionary, and a constructor that stands for
  a barcode class of the package: it keeps the writer it is given and uses an
  \<^verbatim>\<open>SVGWriter\<close> otherwise (\<^verbatim>\<open>default_writer = SVGWriter\<close>). Both serve as concrete
  inputs.
\<close>

definition Barcode_default_writer_options :: "(string \<times> pyval) list" where
  "Barcode_default_writer_options =
     [(''module_width'', PyFloat 0.2), (''module_height'', PyFloat 15.0),
      (''quiet_zone'', PyFloat 6.5), (''font_size'', PyInt 10),
      (''text_distance'', PyFloat 5.0), (''background'', PyStr ''white''),
      (''foreground'', PyStr ''black''), (''write_text'', PyBool True),
      (''text'', PyStr '''')]"

definition svg_barcode :: "barcode_class \<Rightarrow> string \<Rightarrow> py_object option \<Rightarrow> error + barcode" where
  "svg_barcode cls c writer =
     Inr \<lparr>bc_class = cls,
          bc_writer = (case writer of None \<Rightarrow> SVGWriter_object | Some w \<Rightarrow> w),
          default_writer_options = Barcode_default_writer_options\<rparr>"

section \<open>The SVG writer (\<^verbatim>\<open>SVGWriter\<close>)\<close>

text \<open>\<^verbatim>\<open>SVGWriter.__init__\<close> adds the options \<^verbatim>\<open>compress\<close> and \<^verbatim>\<open>dpi\<close>.\<close>

record svg_writer = writer +
  compress :: bool
  dpi :: real

text \<open>
  The document \<^verbatim>\<open>_init\<close> builds always has the same shape: the root element
  (\<^verbatim>\<open>self._root\<close>) with its attributes, a comment and one group (\<^verbatim>\<open>self._group\<close>) below
  it, and the painted elements as the children of the group. The model stores the
  document as these parts, so that appending to \<^verbatim>\<open>self._group\<close> changes the document.
  An attribute dictionary keeps the order in which \<^verbatim>\<open>setAttribute\<close> was called.
\<close>

datatype xml_node =
    Element string "(string \<times> string) list" "xml_node list"
  | TextNode string

record svg_document =
  root_attributes :: "(string \<times> string) list"
  root_comment :: string
  group_attributes :: "(string \<times> string) list"
  group_children :: "xml_node list"

text \<open>
  What the writer takes from outside the modelled files: the float formatting of
  \<^verbatim>\<open>SIZE.format\<close> (\<^verbatim>\<open>"{0:.3f}mm"\<close>) and of \<^verbatim>\<open>"{1}pt"\<close>, the two serialisers of
  \<^verbatim>\<open>xml.dom.minidom\<close> and the version string of the package.
\<close>

record svg_env =
  format_size :: "real \<Rightarrow> string"
  format_font_size :: "real \<Rightarrow> string"
  toxml :: "svg_document \<Rightarrow> string"
  toprettyxml :: "svg_document \<Rightarrow> string"
  version :: string

text \<open>\<^verbatim>\<open>_set_attributes(element, **attributes)\<close>.\<close>

definition set_attributes ::
  "(string \<times> string) list \<Rightarrow> (string \<times> string) list \<Rightarrow> (string \<times> string) list" where
  "set_attributes element attributes =
     fold (\<lambda>(key, val) el. AList.update key val el) attributes element"

text \<open>\<^verbatim>\<open>COMMENT\<close> and the root attributes set by \<^verbatim>\<open>create_svg_object\<close>.\<close>

definition COMMENT :: "svg_env \<Rightarrow> string" where
  "COMMENT env = ''Autogenerated with python-barcode '' @ version env"

definition create_svg_object :: "(string \<times> string) list" where
  "create_svg_object =
     set_attributes [] [(''version'', ''1.1''), (''xmlns'', ''http://www.w3.org/2000/svg'')]"

text \<open>
  \<^verbatim>\<open>SVGWriter._init\<close>. The state is \<^verbatim>\<open>self._document\<close>, \<open>None\<close> before the first rendering;
  \<^verbatim>\<open>code[0]\<close> raises on an empty \<open>code\<close>. The state found is not read.
\<close>

definition svg_init ::
  "svg_env \<Rightarrow> svg_writer \<Rightarrow> string list \<Rightarrow> svg_document option
     \<Rightarrow> error + svg_document option" where
  "svg_init env w code st =
     (case code of
        [] \<Rightarrow> Inl IndexError
      | line0 # rest \<Rightarrow>
          (case calculate_size w (int (length line0)) (int (length code)) (dpi w) of
             Inl e \<Rightarrow> Inl e
           | Inr (width, height) \<Rightarrow>
               Inr (Some
                 \<lparr>root_attributes =
                    set_attributes create_svg_object
                      [(''width'', format_size env (of_int width)),
                       (''height'', format_size env (of_int height))],
                  root_comment = COMMENT env,
                  group_attributes = set_attributes [] [(''id'', ''barcode_group'')],
                  group_children =
                    [Element ''rect''
                       (set_attributes []
                          [(''width'', ''100%''), (''height'', ''100%''),
                           (''style'', ''fill:'' @ background w)]) []]\<rparr>)))"

text \<open>Using \<^verbatim>\<open>self._document\<close> while it is \<^verbatim>\<open>None\<close> raises an AttributeError.\<close>

definition svg_create_module ::
  "svg_env \<Rightarrow> svg_writer \<Rightarrow> real \<Rightarrow> real \<Rightarrow> real \<Rightarrow> string \<Rightarrow> svg_document option
     \<Rightarrow> error + svg_document option" where
  "svg_create_module env w xpos ypos width color st =
     (case st of
        None \<Rightarrow> Inl (AttributeError ''createElement'')
      | Some doc \<Rightarrow>
          Inr (Some (doc\<lparr>group_children := group_children doc @
            [Element ''rect''
               (set_attributes []
                  [(''x'', format_size env xpos), (''y'', format_size env ypos),
                   (''width'', format_size env width),
                   (''height'', format_size env (module_height w)),
                   (''style'', ''fill:'' @ color @ '';'')]) []]\<rparr>)))"

text \<open>\<^verbatim>\<open>barcodetext.split("\n")\<close>; \<open>cur\<close> is the piece read so far.\<close>

fun split_newline_from :: "string \<Rightarrow> string \<Rightarrow> string list" where
  "split_newline_from cur [] = [cur]"
| "split_newline_from cur (ch # rest) =
     (if ch = CHR 0x0A then cur # split_newline_from [] rest
      else split_newline_from (cur @ [ch]) rest)"

text \<open>\<^verbatim>\<open>for subtext in barcodetext.split("\n")\<close> of \<^verbatim>\<open>_create_text\<close>.\<close>

fun svg_text_lines ::
  "svg_env \<Rightarrow> svg_writer \<Rightarrow> real \<Rightarrow> real \<Rightarrow> string list \<Rightarrow> svg_document \<Rightarrow> svg_document" where
  "svg_text_lines env w xpos ypos [] doc = doc"
| "svg_text_lines env w xpos ypos (subtext # rest) doc =
     svg_text_lines env w xpos (ypos + (pt2mm (font_size w) + text_line_distance w)) rest
       (doc\<lparr>group_children := group_children doc @
          [Element ''text''
             (set_attributes []
                [(''x'', format_size env xpos), (''y'', format_size env ypos),
                 (''style'', ''fill:'' @ foreground w @ '';font-size:''
                    @ format_font_size env (font_size w) @ ''pt;text-anchor:middle;'')])
             [TextNode subtext]]\<rparr>)"

definition svg_create_text ::
  "svg_env \<Rightarrow> svg_writer \<Rightarrow> real \<Rightarrow> real \<Rightarrow> svg_document option
     \<Rightarrow> error + svg_document option" where
  "svg_create_text env w xpos ypos st =
     (let barcodetext = (if human w \<noteq> '''' then human w else text w) in
      case st of
        None \<Rightarrow> Inl (AttributeError ''createElement'')
      | Some doc \<Rightarrow>
          Inr (Some (svg_text_lines env w xpos ypos (split_newline_from [] barcodetext) doc)))"

definition svg_finish :: "svg_env \<Rightarrow> svg_writer \<Rightarrow> svg_document option \<Rightarrow> error + string" where
  "svg_finish env w st =
     (case st of
        None \<Rightarrow> Inl (AttributeError ''toxml'')
      | Some doc \<Rightarrow> Inr (if compress w then toxml env doc else toprettyxml env doc))"

text \<open>The callbacks \<^verbatim>\<open>SVGWriter.__init__\<close> registers, and \<^verbatim>\<open>render\<close> on such a writer.\<close>

definition svg_callbacks :: "svg_env \<Rightarrow> svg_writer \<Rightarrow> (svg_document option, string) callbacks" where
  "svg_callbacks env w =
     \<lparr>initialize = Some (svg_init env w),
      paint_module = Some (svg_create_module env w),
      paint_text = Some (svg_create_text env w),
      finish = Some (svg_finish env w)\<rparr>"

definition SVGWriter_render ::
  "svg_env \<Rightarrow> svg_writer \<Rightarrow> string list \<Rightarrow> svg_document option
     \<Rightarrow> error + (string \<times> svg_document option)" where
  "SVGWriter_render env w code st = render (svg_callbacks env w) w code st"

text \<open>An SVG writer with the default options and stand-ins for the formatting and
  serialising functions, used as concrete inputs.\<close>

definition svg_default :: svg_writer where
  "svg_default =
     \<lparr>module_width = 0.2, module_height = 15.0, font_size = 10, quiet_zone = 6.5,
      background = ''white'', foreground = ''black'', write_text = True,
      text = ''12'', human = '''', text_distance = 5.0, text_line_distance = 1,
      center_text = True, compress = False, dpi = 25.4\<rparr>"

definition env0 :: svg_env where
  "env0 =
     \<lparr>format_size = (\<lambda>x. if x < 10 then ''small'' else ''large''),
      format_font_size = (\<lambda>x. ''10''),
      toxml = (\<lambda>doc. concat (map snd (root_attributes doc))),
      toprettyxml = (\<lambda>doc. concat (map snd (root_attributes doc)) @ root_comment doc),
      version = ''0''\<rparr>"

section \<open>Writing a barcode to a file (\<^verbatim>\<open>Barcode.write\<close>)\<close>

text \<open>
  The names bound when the body of \<^verbatim>\<open>Barcode.write\<close> runs: its parameters, the
  globals of the module \<^verbatim>\<open>barcode.base\<close> (the import, the class and the attributes
  every module has) and the builtins of the interpreter, which are a parameter.
\<close>

definition write_param_names :: "string list" where
  "write_param_names = [''self'', ''fp'', ''text'']"

definition base_module_names :: "string list" where
  "base_module_names =
     [''SVGWriter'', ''Barcode'', ''__name__'', ''__doc__'', ''__package__'',
      ''__loader__'', ''__spec__'', ''__file__'', ''__cached__'', ''__builtins__'']"

definition name_is_bound :: "string list \<Rightarrow> string \<Rightarrow> bool" where
  "name_is_bound builtins n =
     (n \<in> set write_param_names \<or> n \<in> set base_module_names \<or> n \<in> set builtins)"

text \<open>
  What \<^verbatim>\<open>write\<close> calls: \<^verbatim>\<open>self.render(options, text)\<close>, \<^verbatim>\<open>hasattr(output, "tostring")\<close>,
  \<^verbatim>\<open>output.save(fp, format=self.writer.format)\<close> and \<^verbatim>\<open>fp.write(output)\<close>. The last two
  return the exception they raise, if any, and the file as they leave it.
\<close>

record ('o, 'f) write_env =
  builtin_names :: "string list"
  render_call :: "string option \<Rightarrow> error + 'o"
  has_tostring :: "'o \<Rightarrow> bool"
  output_save :: "'o \<Rightarrow> 'f \<Rightarrow> error option \<times> 'f"
  fp_write :: "'o \<Rightarrow> 'f \<Rightarrow> error option \<times> 'f"

text \<open>
  \<^verbatim>\<open>Barcode.write(fp, text)\<close>: the exception raised, if any, and the file afterwards.
  The arguments of the call of \<^verbatim>\<open>render\<close> are evaluated first, and \<^verbatim>\<open>options\<close> is the
  first of them.
\<close>

definition Barcode_write :: "('o, 'f) write_env \<Rightarrow> 'f \<Rightarrow> string option \<Rightarrow> error option \<times> 'f" where
  "Barcode_write env fp text_arg =
     (if \<not> name_is_bound (builtin_names env) ''options''
      then (Some (NameError ''options''), fp)
      else
        (case render_call env text_arg of
           Inl e \<Rightarrow> (Some e, fp)
         | Inr output \<Rightarrow>
             if has_tostring env output then output_save env output fp
             else fp_write env output fp))"

text \<open>An environment in which rendering and writing would succeed, used as a
  concrete input; the file is the list of the chunks written to it.\<close>

definition write_env0 :: "(string, string list) write_env" where
  "write_env0 =
     \<lparr>builtin_names = [''hasattr'', ''enumerate'', ''object'', ''NotImplementedError''],
      render_call = (\<lambda>text_arg. Inr ''<svg/>''),
      has_tostring = (\<lambda>output. False),
      output_save = (\<lambda>output fp. (None, fp @ [output])),
      fp_write = (\<lambda>output fp. (None, fp @ [output]))\<rparr>"

section \<open>Run-length packing: proofs\<close>

lemma mlist_loop_Suc: "mlist_loop line (Suc k) = mlist_step line (mlist_loop line k) k"
  by (simp add: mlist_loop_def)

lemma alternating_snoc:
  "alternating ms \<Longrightarrow> (ms \<noteq> [] \<Longrightarrow> (last ms < 1) \<noteq> (m < 1)) \<Longrightarrow> alternating (ms @ [m])"
  by (induction ms rule: alternating.induct) auto

lemma expand_tokens_snoc: "expand_tokens (ms @ [m]) = expand_tokens ms @ expand_token m"
  by (simp add: expand_tokens_def)

lemma binary_line_nth:
  "binary_line line \<Longrightarrow> k < length line \<Longrightarrow> line ! k = CHR ''0'' \<or> line ! k = CHR ''1''"
  by (simp add: binary_line_def list_all_length)

lemma binary_line_mem:
  "binary_line line \<Longrightarrow> ch \<in> set line \<Longrightarrow> ch = CHR ''0'' \<or> ch = CHR ''1''"
  by (simp add: binary_line_def list_all_iff)

lemma run_inv_step:
  assumes bin: "binary_line line0" and k: "k < length line0"
    and inv: "run_inv line0 (line0 @ '' '') k s"
  shows "run_inv line0 (line0 @ '' '') (Suc k) (mlist_step (line0 @ '' '') s k)"
proof -
  define line where "line = line0 @ '' ''"
  obtain c mlist where s: "s = (c, mlist)" by (cases s)
  let ?a = "line ! k" and ?b = "line ! Suc k"
  have a0: "?a = line0 ! k" using k by (simp add: line_def nth_append)
  have abin: "?a = CHR ''0'' \<or> ?a = CHR ''1''"
    using binary_line_nth[OF bin k] a0 by simp
  have bbin: "Suc k < length line0 \<Longrightarrow> ?b = CHR ''0'' \<or> ?b = CHR ''1''"
    using binary_line_nth[OF bin, of "Suc k"] by (simp add: line_def nth_append)
  have tk: "take (Suc (Suc k)) line = take (Suc k) line @ [?b]"
  proof -
    have "Suc k < length line" using k by (simp add: line_def)
    then show ?thesis by (rule take_Suc_conv_app_nth)
  qed
  from inv have c1: "1 \<le> c"
    and ex: "expand_tokens mlist @ replicate (nat c) ?a = take (Suc k) line"
    and alt: "alternating mlist" and nz: "0 \<notin> set mlist"
    and lst: "mlist \<noteq> [] \<Longrightarrow> (last mlist < 1) \<noteq> (?a \<noteq> CHR ''1'')"
    using k by (simp_all add: run_inv_def s line_def)
  show ?thesis
  proof (cases "?a = ?b")
    case True
    have "nat (c + 1) = Suc (nat c)" using c1 by simp
    then have "replicate (nat (c + 1)) ?b = replicate (nat c) ?a @ [?b]"
      using True by (simp add: replicate_append_same)
    with ex tk alt nz lst c1 True show ?thesis
      by (simp add: run_inv_def s mlist_step_def line_def[symmetric])
  next
    case False
    define tok where "tok = (if ?a = CHR ''1'' then c else - c)"
    have et: "expand_token tok = replicate (nat c) ?a"
      using abin c1 by (auto simp: tok_def expand_token_def)
    have tlt: "(tok < 1) = (?a \<noteq> CHR ''1'')" using c1 by (auto simp: tok_def)
    have alt': "alternating (mlist @ [tok])"
      using alt lst tlt by (intro alternating_snoc) auto
    have step: "mlist_step line s k = (1, mlist @ [tok])"
      using False by (simp add: mlist_step_def s tok_def)
    have ex': "expand_tokens (mlist @ [tok]) @ replicate (nat 1) ?b = take (Suc (Suc k)) line"
      using ex et tk by (simp add: expand_tokens_snoc)
    have lst': "Suc k < length line0 \<Longrightarrow> (tok < 1) \<noteq> (?b \<noteq> CHR ''1'')"
      using bbin abin False tlt by auto
    have nz': "0 \<notin> set (mlist @ [tok])"
      using nz c1 by (auto simp: tok_def)
    show ?thesis
      unfolding line_def[symmetric] step run_inv_def using ex' alt' nz' lst' by simp
  qed
qed

lemma run_inv_loop:
  assumes "binary_line line0" "k \<le> length line0"
  shows "run_inv line0 (line0 @ '' '') k (mlist_loop (line0 @ '' '') k)"
  using assms(2)
proof (induction k)
  case 0
  then show ?case
    by (cases line0) (simp_all add: mlist_loop_def expand_tokens_def run_inv_def)
next
  case (Suc k)
  then have k: "k < length line0"
    and inv: "run_inv line0 (line0 @ '' '') k (mlist_loop (line0 @ '' '') k)"
    by simp_all
  show ?case unfolding mlist_loop_Suc by (rule run_inv_step[OF assms(1) k inv])
qed

lemma length_expand_token: "length (expand_token m) = nat \<bar>m\<bar>"
  by (simp add: expand_token_def)

lemma length_expand_tokens: "int (length (expand_tokens ms)) = (\<Sum>m\<leftarrow>ms. \<bar>m\<bar>)"
proof (induction ms)
  case Nil
  show ?case by (simp add: expand_tokens_def)
next
  case (Cons m ms)
  have "expand_tokens (m # ms) = expand_token m @ expand_tokens ms"
    by (simp add: expand_tokens_def)
  then show ?case using Cons by (simp add: length_expand_token)
qed

lemma pack_line_expand:
  assumes "binary_line line"
  shows "expand_tokens (pack_line line) = line \<and> alternating (pack_line line)
       \<and> 0 \<notin> set (pack_line line)"
proof -
  obtain c mlist where cm: "mlist_loop (line @ '' '') (length line) = (c, mlist)"
    by (cases "mlist_loop (line @ '' '') (length line)")
  have "run_inv line (line @ '' '') (length line) (mlist_loop (line @ '' '') (length line))"
    by (rule run_inv_loop[OF assms]) simp
  then have inv: "run_inv line (line @ '' '') (length line) (c, mlist)"
    unfolding cm .
  have nthl: "(line @ '' '') ! length line = CHR '' ''" by simp
  have tk: "take (Suc (length line)) (line @ '' '') = line @ '' ''" by simp
  from inv have c1: "1 \<le> c"
    and ex: "expand_tokens mlist @ replicate (nat c) CHR '' '' = line @ '' ''"
    and alt: "alternating mlist" and nz: "0 \<notin> set mlist"
    unfolding run_inv_def prod.case nthl tk by blast+
  have "nat c = Suc (nat (c - 1))" using c1 by simp
  then have "replicate (nat c) CHR '' '' = replicate (nat (c - 1)) CHR '' '' @ '' ''"
    by (simp only: replicate_Suc replicate_append_same)
  then have "(expand_tokens mlist @ replicate (nat (c - 1)) CHR '' '') @ '' '' = line @ '' ''"
    using ex by (simp only: append_assoc)
  then have e2: "expand_tokens mlist @ replicate (nat (c - 1)) CHR '' '' = line"
    by (simp only: append_same_eq)
  have "c = 1"
  proof (rule ccontr)
    assume "c \<noteq> 1"
    then have "0 < nat (c - 1)" using c1 by simp
    then have "CHR '' '' \<in> set (expand_tokens mlist @ replicate (nat (c - 1)) CHR '' '')"
      by simp
    then have "CHR '' '' \<in> set line" by (simp only: e2)
    then show False using binary_line_mem[OF assms, of "CHR '' ''"] by simp
  qed
  then have "expand_tokens mlist = line" using e2 by simp
  moreover have "pack_line line = mlist"
    by (simp add: pack_line_def cm)
  ultimately show ?thesis using alt nz by simp
qed

lemma pack_line_example: "pack_line ''11010111'' = [2, - 1, 1, - 1, 3]"
  by (simp add: pack_line_def mlist_loop_def mlist_step_def upt_rec)

text \<open>
  Claim C1. For every line that consists only of the characters 0 and 1, the signed
  run-length tokens that \<^verbatim>\<open>render\<close> computes for the line expand back to the line
  itself, character for character; the tokens alternate in sign, none of them is
  zero, and their absolute values add up to the length of the line.
\<close>

theorem C1_pack_line_roundtrip:
  assumes "binary_line line"
  shows "expand_tokens (pack_line line) = line
       \<and> alternating (pack_line line)
       \<and> 0 \<notin> set (pack_line line)
       \<and> (\<Sum>m\<leftarrow>pack_line line. \<bar>m\<bar>) = int (length line)"
proof -
  have rt: "expand_tokens (pack_line line) = line" and alt: "alternating (pack_line line)"
    and nz: "0 \<notin> set (pack_line line)"
    using pack_line_expand[OF assms] by simp_all
  have "(\<Sum>m\<leftarrow>pack_line line. \<bar>m\<bar>) = int (length (expand_tokens (pack_line line)))"
    by (simp only: length_expand_tokens)
  then show ?thesis using rt alt nz by simp
qed

theorem C1_pack_line_roundtrip_witness:
  "binary_line ''11010111''
   \<and> pack_line ''11010111'' = [2, - 1, 1, - 1, 3]
   \<and> expand_tokens (pack_line ''11010111'') = ''11010111''
   \<and> alternating (pack_line ''11010111'')
   \<and> (\<Sum>m\<leftarrow>pack_line ''11010111''. \<bar>m\<bar>) = int (length ''11010111'')"
proof -
  have b: "binary_line ''11010111''" by (simp add: binary_line_def)
  show ?thesis using b C1_pack_line_roundtrip[OF b] pack_line_example by simp
qed

section \<open>The paint protocol: proofs\<close>

lemma call_paint_module_recorder:
  "call_paint_module recorder xpos ypos width color st =
     Inr (st @ [PaintModule xpos ypos width color])"
  by (simp add: call_paint_module_def recorder_def)

lemma paint_modules_recorder:
  "paint_modules recorder w ypos ms xpos st =
     Inr (xpos + module_width w * of_int (\<Sum>m\<leftarrow>ms. \<bar>m\<bar>), st @ module_events w ypos xpos ms)"
proof (induction ms arbitrary: xpos st)
  case Nil
  show ?case by simp
next
  case (Cons m ms)
  show ?case
    by (simp add: Cons call_paint_module_recorder distrib_left Let_def)
qed

lemma line_ypos_Suc: "line_ypos w (Suc cc) = line_ypos w cc + module_height w"
  by (simp add: line_ypos_def distrib_right)

lemma enumerate_Cons: "enumerate cc (x # xs) = (cc, x) # enumerate (Suc cc) xs"
  by (simp add: enumerate_eq_zip upt_rec)

lemma render_lines_recorder:
  assumes "n = cc + length code"
  shows "render_lines recorder w n cc code (line_ypos w cc) bx st =
     Inr (line_ypos w n,
          (if code = [] then bx else Some (quiet_zone w, body_end w (last code))),
          st @ concat (map (\<lambda>(i, line). line_events w n i line) (enumerate cc code)))"
  using assms
proof (induction code arbitrary: cc bx st)
  case Nil
  then show ?case by simp
next
  case (Cons line rest)
  have n: "n = Suc cc + length rest" using Cons.prems by simp
  have last_if: "(cc + 1 \<noteq> n) = (rest \<noteq> [])" using n by auto
  show ?case
  proof (cases "rest = []")
    case True
    with n have "cc + 1 = n" by simp
    with True show ?thesis
      by (simp add: Let_def paint_modules_recorder body_end_def line_events_def
          line_ypos_Suc[symmetric])
  next
    case False
    with n have ne: "cc + 1 \<noteq> n" by simp
    from False ne show ?thesis
      by (simp add: Let_def paint_modules_recorder call_paint_module_recorder body_end_def
          line_events_def line_ypos_Suc[symmetric] Cons.IH[OF n])
  qed
qed


lemma render_recorder:
  "render recorder w code [] =
     (if text w \<noteq> [] \<and> code = [] then Inl (UnboundLocalError ''bxs'')
      else Inr (Initialize code # all_line_events w code
                  @ (if text w \<noteq> [] then
                       [PaintText (text_xpos w code)
                          (line_ypos w (length code) + text_distance w)]
                     else []),
                Initialize code # all_line_events w code
                  @ (if text w \<noteq> [] then
                       [PaintText (text_xpos w code)
                          (line_ypos w (length code) + text_distance w)]
                     else [])))"
proof -
  have init: "initialize recorder = Some (\<lambda>code st. Inr (st @ [Initialize code]))"
    and pt: "paint_text recorder = Some (\<lambda>xpos ypos st. Inr (st @ [PaintText xpos ypos]))"
    and fin: "finish recorder = Some (\<lambda>st. Inr st)"
    by (simp_all add: recorder_def)
  have y0: "(1::real) = line_ypos w 0" by (simp add: line_ypos_def)
  have lines: "render_lines recorder w (length code) 0 code 1 None [Initialize code] =
     Inr (line_ypos w (length code),
          (if code = [] then None else Some (quiet_zone w, body_end w (last code))),
          Initialize code # all_line_events w code)"
    unfolding all_line_events_def
    by (subst y0, subst render_lines_recorder) simp_all
  have mid: "quiet_zone w + (body_end w (last code) - quiet_zone w) / 2
      = (quiet_zone w + body_end w (last code)) / 2"
    by (simp add: field_simps)
  show ?thesis
    by (simp add: render_def init pt fin lines text_xpos_def mid Let_def)
qed


lemma filter_module_events:
  "filter is_paint_module (module_events w ypos xpos ms) = module_events w ypos xpos ms"
  by (induction ms arbitrary: xpos) simp_all

lemma filter_line_events:
  "filter is_paint_module (line_events w n cc line) = line_events w n cc line"
  by (simp add: line_events_def filter_module_events)

lemma filter_all_line_events:
  "filter is_paint_module (all_line_events w code) = all_line_events w code"
proof -
  have "filter is_paint_module \<circ> (\<lambda>(cc, line). line_events w n cc line)
        = (\<lambda>(cc, line). line_events w n cc line)" for n
    by (auto simp: fun_eq_iff filter_line_events)
  then show ?thesis
    by (simp add: all_line_events_def filter_concat)
qed

text \<open>
  Claim C7. In a rendering of \<open>n\<close> lines, the calls of \<open>paint_module\<close> are, line by
  line, the rectangles of the tokens of the line followed by one background rectangle
  of the width of the quiet zone, which is left out after the last line only; line
  number \<open>cc\<close> is painted at the height \<open>line_ypos w cc\<close>, which starts at 1 and grows by
  exactly \<open>module_height\<close> from each line to the next.
\<close>

theorem C7_quiet_zone_and_line_advance:
  assumes "render recorder w code [] = Inr (out, st)"
  shows "paint_module_events out =
           concat (map (\<lambda>(cc, line).
               module_events w (line_ypos w cc) (quiet_zone w) (pack_line line)
               @ (if cc + 1 = length code then []
                  else [PaintModule (body_end w line) (line_ypos w cc)
                          (quiet_zone w) (background w)]))
             (enumerate 0 code))
       \<and> line_ypos w 0 = 1
       \<and> (\<forall>cc. line_ypos w (Suc cc) = line_ypos w cc + module_height w)"
proof -
  from assms have out: "out = Initialize code # all_line_events w code
       @ (if text w \<noteq> [] then
            [PaintText (text_xpos w code) (line_ypos w (length code) + text_distance w)]
          else [])"
    by (simp add: render_recorder split: if_splits)
  have "paint_module_events out = all_line_events w code"
    unfolding out paint_module_events_def
    by (simp add: filter_all_line_events)
  moreover have "line_ypos w 0 = 1" by (simp add: line_ypos_def)
  ultimately show ?thesis
    by (simp add: all_line_events_def line_events_def line_ypos_Suc)
qed

theorem C7_quiet_zone_and_line_advance_witness:
  "paint_module_events (fst (projr (render recorder default_writer code2 []))) =
     [PaintModule 6.5 1 0.2 ''black'', PaintModule 6.7 1 0.2 ''white'',
      PaintModule 6.9 1 0.2 ''black'', PaintModule 7.1 1 6.5 ''white'',
      PaintModule 6.5 16 0.4 ''black'', PaintModule 6.9 16 0.2 ''white'']"
proof -
  have r: "render recorder default_writer code2 [] =
     Inr (fst (projr (render recorder default_writer code2 [])),
          snd (projr (render recorder default_writer code2 [])))"
    by (simp add: render_recorder default_writer_def BaseWriter_init_def code2_def)
  have p1: "pack_line ''101'' = [1, - 1, 1]"
    by (simp add: pack_line_def mlist_loop_def mlist_step_def upt_rec)
  have p2: "pack_line ''110'' = [2, - 1]"
    by (simp add: pack_line_def mlist_loop_def mlist_step_def upt_rec)
  show ?thesis
    using C7_quiet_zone_and_line_advance[OF r]
    by (simp add: code2_def enumerate_eq_zip upt_rec p1 p2 line_ypos_def body_end_def
        default_writer_def BaseWriter_init_def)
qed

section \<open>Text position and image size: proofs\<close>

lemma body_end_binary:
  assumes "binary_line line"
  shows "body_end w line = quiet_zone w + module_width w * real (length line)"
proof -
  have "(\<Sum>m\<leftarrow>pack_line line. \<bar>m\<bar>) = int (length (expand_tokens (pack_line line)))"
    by (simp only: length_expand_tokens)
  also have "\<dots> = int (length line)" using pack_line_expand[OF assms] by simp
  finally show ?thesis by (simp add: body_end_def)
qed

text \<open>
  Claim C8. When a text is painted (the text is not empty and there is at least one
  line), \<open>paint_text\<close> is the last call and its horizontal position is the midpoint
  between the end of the left quiet zone and the end of the painted modules of the
  last line when \<open>center_text\<close> is set, and the end of the left quiet zone otherwise;
  for a line of 0 and 1 the painted modules end \<open>module_width\<close> times the length of the
  line after the quiet zone.
\<close>

theorem C8_text_position:
  assumes "text w \<noteq> []" and "code \<noteq> []"
  shows "render recorder w code [] =
           Inr (Initialize code # all_line_events w code
                  @ [PaintText
                       (if center_text w then (quiet_zone w + body_end w (last code)) / 2
                        else quiet_zone w)
                       (1 + real (length code) * module_height w + text_distance w)],
                Initialize code # all_line_events w code
                  @ [PaintText
                       (if center_text w then (quiet_zone w + body_end w (last code)) / 2
                        else quiet_zone w)
                       (1 + real (length code) * module_height w + text_distance w)])
       \<and> (binary_line (last code) \<longrightarrow>
            body_end w (last code)
              = quiet_zone w + module_width w * real (length (last code)))"
  using assms
  by (simp add: render_recorder text_xpos_def line_ypos_def body_end_binary)

theorem C8_text_position_witness:
  "fst (projr (render recorder (default_writer\<lparr>text := ''12''\<rparr>) code2 []))
     = Initialize code2 # all_line_events (default_writer\<lparr>text := ''12''\<rparr>) code2
         @ [PaintText 6.8 36]
   \<and> fst (projr (render recorder (default_writer\<lparr>text := ''12'', center_text := False\<rparr>) code2 []))
     = Initialize code2
         # all_line_events (default_writer\<lparr>text := ''12'', center_text := False\<rparr>) code2
         @ [PaintText 6.5 36]"
proof -
  have t: "text (default_writer\<lparr>text := ''12''\<rparr>) \<noteq> []"
    and t': "text (default_writer\<lparr>text := ''12'', center_text := False\<rparr>) \<noteq> []"
    and c: "code2 \<noteq> []" and b: "binary_line (last code2)"
    by (simp_all add: code2_def binary_line_def)
  show ?thesis
    using C8_text_position[OF t c] C8_text_position[OF t' c] b
    by (simp add: default_writer_def BaseWriter_init_def code2_def)
qed

lemma calculate_size_mm_eq:
  "calculate_size_mm w m n resolution =
     (if font_size w \<noteq> 0 \<and> text w \<noteq> [] \<and> resolution = 0 then Inl ZeroDivisionError
      else Inr (2 * quiet_zone w + of_int m * module_width w,
                2 + of_int n * module_height w + text_block_height w resolution))"
  by (simp add: calculate_size_mm_def text_block_height_def Let_def algebra_simps)

lemma calculate_size_default: "calculate_size default_writer 95 1 300 = Inr (377, 200)"
  by (simp add: calculate_size_def calculate_size_mm_eq text_block_height_def
      default_writer_def BaseWriter_init_def mm2px_def py_int_def)

text \<open>
  Claim C2 as stated fails: for the default options, 95 modules, one line and 300 DPI
  the code returns a height of 200 pixels, while \<open>number_of_lines * module_height\<close> plus
  the text block height, with no other term, is 15 mm, which is 177 pixels.
\<close>

theorem C2_image_size_counterexample:
  "calculate_size default_writer 95 1 300 = Inr (377, 200)
   \<and> py_int (mm2px (1 * module_height default_writer + text_block_height default_writer 300) 300)
       = 177"
  by (simp add: calculate_size_default)
     (simp add: text_block_height_def default_writer_def BaseWriter_init_def mm2px_def py_int_def)

text \<open>
  Claim C3, as amended. With \<open>module_width = 0.2\<close>, \<open>quiet_zone = 6.5\<close>, 95 modules per
  line and 300 DPI the pixel width returned by \<open>calculate_size\<close> is
  \<open>int(mm2px(2 * 6.5 + 95 * 0.2, 300))\<close>, the millimetre width converted by
  \<open>mm * dpi / 25.4\<close> and truncated towards zero, which is 377.
\<close>

theorem C3_pixel_width:
  assumes "module_width w = 0.2" and "quiet_zone w = 6.5"
  shows "calculate_size w 95 number_of_lines 300
           = Inr (py_int (mm2px (2 * 6.5 + 95 * 0.2) 300),
                  py_int (mm2px (2 + of_int number_of_lines * module_height w
                                   + text_block_height w 300) 300))
       \<and> py_int (mm2px (2 * 6.5 + 95 * 0.2) 300) = 377"
proof -
  have e: "calculate_size w 95 number_of_lines 300
      = Inr (py_int (mm2px (2 * quiet_zone w + 95 * module_width w) 300),
             py_int (mm2px (2 + of_int number_of_lines * module_height w
                              + text_block_height w 300) 300))"
    by (simp add: calculate_size_def calculate_size_mm_eq)
  have px: "py_int (mm2px (2 * 6.5 + 95 * 0.2) 300) = 377"
    by (simp add: mm2px_def py_int_def)
  show ?thesis unfolding e assms using px by simp
qed

theorem C3_pixel_width_witness:
  "calculate_size default_writer 95 1 300 = Inr (377, 200)"
proof -
  have m: "module_width default_writer = 0.2" and q: "quiet_zone default_writer = 6.5"
    by (simp_all add: default_writer_def BaseWriter_init_def)
  show ?thesis
    using C3_pixel_width[OF m q, of 1]
    by (simp add: text_block_height_def default_writer_def BaseWriter_init_def
        mm2px_def py_int_def)
qed

text \<open>
  Claim C3 as stated fails: the code returns the width 377, and rounding
  \<open>mm2px(2 * 6.5 + 95 * 0.2, 300)\<close> to the nearest integer gives 378.
\<close>

theorem C3_pixel_width_counterexample:
  "fst (projr (calculate_size default_writer 95 1 300)) = 377
   \<and> round (mm2px (2 * 6.5 + 95 * 0.2) 300) = 378"
  by (simp add: calculate_size_default) (simp add: mm2px_def round_def)

lemma splitlines_1234: "splitlines ''1234'' = [''1234'']"
  by (simp add: splitlines_def is_linebreak_def)

text \<open>
  Claim C4, as amended. The text block is left out of the height whenever \<open>font_size\<close>
  is zero or the text is empty; when \<open>font_size\<close> is not zero and the text is not empty
  (and \<open>dpi\<close> is not zero), the height grows by the font size term times the number
  of text lines, the text distance, and the line distance for every text line after
  the first. The option \<open>write_text\<close> has no influence on the size.
\<close>

theorem C4_text_block:
  "(font_size w = 0 \<or> text w = [] \<longrightarrow>
      calculate_size_mm w m n resolution
        = Inr (2 * quiet_zone w + of_int m * module_width w,
               2 + of_int n * module_height w))
   \<and> (font_size w \<noteq> 0 \<and> text w \<noteq> [] \<and> resolution \<noteq> 0 \<longrightarrow>
      calculate_size_mm w m n resolution
        = Inr (2 * quiet_zone w + of_int m * module_width w,
               2 + of_int n * module_height w
               + (pt2mm (font_size w) / (2 * resolution / 200) * real (length (splitlines (text w)))
                  + text_distance w
                  + text_line_distance w * (real (length (splitlines (text w))) - 1))))
   \<and> calculate_size_mm (w\<lparr>write_text := b\<rparr>) m n resolution = calculate_size_mm w m n resolution"
  by (simp add: calculate_size_mm_eq text_block_height_def)

theorem C4_text_block_witness:
  "calculate_size_mm default_writer 95 1 300 = Inr (32, 17)
   \<and> calculate_size_mm text_writer 95 1 300 = Inr (32, 17 + (pt2mm 10 / 3 + 5))
   \<and> calculate_size_mm (text_writer\<lparr>write_text := False\<rparr>) 95 1 300
       = Inr (32, 17 + (pt2mm 10 / 3 + 5))"
  using C4_text_block[of default_writer 95 1 300 False]
    C4_text_block[of text_writer 95 1 300 False]
  by (simp add: text_writer_def default_writer_def BaseWriter_init_def splitlines_1234)

text \<open>
  Claim C4 as stated fails: with \<open>write_text\<close> false and the text \<open>1234\<close> the height
  is 273 pixels, not the 200 pixels of the same configuration without a text.
\<close>

theorem C4_text_block_counterexample:
  "\<not> write_text (text_writer\<lparr>write_text := False\<rparr>)
   \<and> text (text_writer\<lparr>write_text := False\<rparr>) \<noteq> []
   \<and> calculate_size (text_writer\<lparr>write_text := False\<rparr>) 95 1 300 = Inr (377, 273)
   \<and> calculate_size (text_writer\<lparr>write_text := False, text := []\<rparr>) 95 1 300
       = Inr (377, 200)"
  by (simp add: calculate_size_def calculate_size_mm_eq text_block_height_def
      text_writer_def default_writer_def BaseWriter_init_def splitlines_1234
      mm2px_def pt2mm_def py_int_def)

section \<open>Registry and options: proofs\<close>

lemma py_lower_EAN13: "py_lower ''EAN13'' = ''ean13''"
  by code_simp

lemma py_lower_nota: "py_lower ''notabarcode'' = ''notabarcode''"
  by code_simp

text \<open>
  Claim C6. The registry lookup of \<open>get\<close> depends on the name only through its lower
  case form: a name whose lower case form is not a key of the registry raises
  \<open>BarcodeNotFoundError\<close> and nothing else, a name whose lower case form is a key yields
  the class registered under it, and two names with the same lower case form that is
  a key give the same result.
\<close>

theorem C6_get_lookup:
  "(py_lower name \<notin> set (map fst BARCODE_MAP) \<longrightarrow>
      get new_barcode name code writer writer_options = Inl (BarcodeNotFoundError name))
   \<and> (map_of BARCODE_MAP (py_lower name) = Some cls \<longrightarrow>
      get new_barcode name None writer writer_options = Inr (BarcodeClass cls))
   \<and> (py_lower name' = py_lower name \<longrightarrow> py_lower name \<in> set (map fst BARCODE_MAP) \<longrightarrow>
      get new_barcode name' code writer writer_options
        = get new_barcode name code writer writer_options)"
proof (intro conjI impI)
  assume "py_lower name \<notin> set (map fst BARCODE_MAP)"
  then have "map_of BARCODE_MAP (py_lower name) = None"
    by (simp add: map_of_eq_None_iff)
  then show "get new_barcode name code writer writer_options = Inl (BarcodeNotFoundError name)"
    by (simp add: get_def)
next
  assume "map_of BARCODE_MAP (py_lower name) = Some cls"
  then show "get new_barcode name None writer writer_options = Inr (BarcodeClass cls)"
    by (simp add: get_def)
next
  assume same: "py_lower name' = py_lower name"
    and "py_lower name \<in> set (map fst BARCODE_MAP)"
  then have "map_of BARCODE_MAP (py_lower name) \<noteq> None"
    by (simp add: map_of_eq_None_iff)
  then obtain c where c: "map_of BARCODE_MAP (py_lower name) = Some c" by blast
  show "get new_barcode name' code writer writer_options
        = get new_barcode name code writer writer_options"
    by (simp add: get_def same c)
qed

text \<open>
  Claim C5, as amended. A configuration key that is not an attribute of the writer
  (after its leading underscores are stripped) is skipped by \<open>set_options\<close>: the call
  goes on with the remaining options, and when no key is recognised the call returns
  normally and leaves the writer as it was. No error is raised for such a key.
\<close>

theorem C5_unknown_options_ignored:
  "(\<not> hasattr self (lstrip_underscore key) \<longrightarrow>
      set_options self ((key, val) # options) = set_options self options)
   \<and> (list_all (\<lambda>(key, val). \<not> hasattr self (lstrip_underscore key)) options \<longrightarrow>
      set_options self options = Inr self)"
proof -
  have "set_options self options = Inr self"
    if "list_all (\<lambda>(key, val). \<not> hasattr self (lstrip_underscore key)) options"
    using that by (induction options) auto
  then show ?thesis by simp
qed


theorem C6_get_lookup_witness:
  "get svg_barcode ''notabarcode'' (Some ''123'') None None
     = Inl (BarcodeNotFoundError ''notabarcode'')
   \<and> get svg_barcode ''ean13'' None None None = Inr (BarcodeClass EAN13)
   \<and> get svg_barcode ''EAN13'' None None None = Inr (BarcodeClass EAN13)"
proof -
  have a: "py_lower ''notabarcode'' \<notin> set (map fst BARCODE_MAP)"
    by (simp add: py_lower_nota BARCODE_MAP_def)
  have l: "py_lower ''ean13'' = ''ean13''" by code_simp
  have b: "map_of BARCODE_MAP (py_lower ''ean13'') = Some EAN13"
    by (simp add: l BARCODE_MAP_def)
  have c: "py_lower ''EAN13'' = py_lower ''ean13''" by (simp add: l py_lower_EAN13)
  have d: "py_lower ''ean13'' \<in> set (map fst BARCODE_MAP)"
    by (simp add: l BARCODE_MAP_def)
  show ?thesis
    using a b c d
      C6_get_lookup[of "''notabarcode''" svg_barcode "Some ''123''" None None]
      C6_get_lookup[of "''ean13''" svg_barcode None None None EAN13 "''EAN13''"]
    by simp
qed

theorem C5_unknown_options_ignored_witness:
  "set_options SVGWriter_object
     [(''no_such_option'', PyInt 1), (''__another'', PyStr ''x'')] = Inr SVGWriter_object"
proof -
  have "list_all (\<lambda>(key, val). \<not> hasattr SVGWriter_object (lstrip_underscore key))
          [(''no_such_option'', PyInt 1), (''__another'', PyStr ''x'')]"
    by (simp add: hasattr_def has_plain_attr_def is_file_type_property_def
        lstrip_underscore_def SVGWriter_object_def SVGWriter_class_attrs_def
        BaseWriter_class_attrs_def)
  then show ?thesis
    using C5_unknown_options_ignored[of SVGWriter_object "''x''" PyNone
        "[(''no_such_option'', PyInt 1), (''__another'', PyStr ''x'')]"]
    by simp
qed

lemma get_unknown_option:
  "get svg_barcode ''ean13'' (Some ''123'') None (Some [(''no_such_option'', PyInt 1)])
     = get svg_barcode ''ean13'' (Some ''123'') None None
   \<and> \<not> isl (get svg_barcode ''ean13'' (Some ''123'') None None)"
proof -
  have l: "py_lower ''ean13'' = ''ean13''" by code_simp
  show ?thesis
    by (simp add: get_def l BARCODE_MAP_def svg_barcode_def dict_merge_def Let_def
        Barcode_default_writer_options_def hasattr_def has_plain_attr_def
        is_file_type_property_def setattr_def
        lstrip_underscore_def SVGWriter_object_def SVGWriter_class_attrs_def
        BaseWriter_class_attrs_def)
qed

text \<open>
  Claim C5 as stated fails: \<open>no_such_option\<close> is not an attribute of an \<open>SVGWriter\<close>,
  yet \<open>set_options\<close> returns normally with the writer unchanged, and \<open>get\<close> called with
  this option returns the same barcode as without it.
\<close>

theorem C5_unknown_options_ignored_counterexample:
  "\<not> hasattr SVGWriter_object (lstrip_underscore ''no_such_option'')
   \<and> set_options SVGWriter_object [(''no_such_option'', PyInt 1)] = Inr SVGWriter_object
   \<and> \<not> isl (get svg_barcode ''ean13'' (Some ''123'') None (Some [(''no_such_option'', PyInt 1)]))
   \<and> get svg_barcode ''ean13'' (Some ''123'') None (Some [(''no_such_option'', PyInt 1)])
       = get svg_barcode ''ean13'' (Some ''123'') None None"
proof -
  have h: "\<not> hasattr SVGWriter_object (lstrip_underscore ''no_such_option'')"
    by (simp add: hasattr_def has_plain_attr_def is_file_type_property_def
        lstrip_underscore_def SVGWriter_object_def SVGWriter_class_attrs_def
        BaseWriter_class_attrs_def)
  then have "set_options SVGWriter_object [(''no_such_option'', PyInt 1)] = Inr SVGWriter_object"
    by simp
  with h show ?thesis using get_unknown_option by simp
qed

section \<open>The SVG writer: proofs\<close>

lemma svg_init_state: "svg_init env w code st1 = svg_init env w code st2"
  by (simp add: svg_init_def)

lemma render_initialize_state:
  assumes "initialize cb = Some f" and "f code st1 = f code st2"
  shows "render cb w code st1 = render cb w code st2"
  using assms by (simp add: render_def)

lemma svg_paint_modules_ok:
  "\<exists>x' d'. paint_modules (svg_callbacks env w) w ypos ms xpos (Some d) = Inr (x', Some d')"
proof (induction ms arbitrary: xpos d)
  case Nil
  show ?case by simp
next
  case (Cons m ms)
  have pm: "call_paint_module (svg_callbacks env w) x y wd col (Some d)
      = Inr (Some (d\<lparr>group_children := group_children d @
            [Element ''rect''
               (set_attributes []
                  [(''x'', format_size env x), (''y'', format_size env y),
                   (''width'', format_size env wd),
                   (''height'', format_size env (module_height w)),
                   (''style'', ''fill:'' @ col @ '';'')]) []]\<rparr>))" for x y wd col
    by (simp add: call_paint_module_def svg_callbacks_def svg_create_module_def)
  show ?case by (simp add: pm Let_def Cons.IH)
qed

lemma svg_quiet_zone_ok:
  "\<exists>d'. (if b then call_paint_module (svg_callbacks env w) x y wd col (Some d)
            else Inr (Some d)) = Inr (Some d')"
  by (simp add: call_paint_module_def svg_callbacks_def svg_create_module_def)

lemma svg_render_lines_ok:
  "\<exists>y' bx' d'. render_lines (svg_callbacks env w) w n cc code ypos bx (Some d)
       = Inr (y', bx', Some d') \<and> (code \<noteq> [] \<longrightarrow> bx' \<noteq> None)"
proof (induction code arbitrary: cc ypos bx d)
  case Nil
  show ?case by simp
next
  case (Cons line rest)
  obtain x1 d1 where pm: "paint_modules (svg_callbacks env w) w ypos (pack_line line)
      (quiet_zone w) (Some d) = Inr (x1, Some d1)"
    using svg_paint_modules_ok by blast
  obtain d2 where qz: "(if cc + 1 \<noteq> n
       then call_paint_module (svg_callbacks env w) x1 ypos (quiet_zone w) (background w) (Some d1)
       else Inr (Some d1)) = Inr (Some d2)"
    using svg_quiet_zone_ok by blast
  obtain y' bx' d' where rest: "render_lines (svg_callbacks env w) w n (cc + 1) rest
      (ypos + module_height w) (Some (quiet_zone w, x1)) (Some d2) = Inr (y', bx', Some d')"
    and bx': "rest \<noteq> [] \<longrightarrow> bx' \<noteq> None"
    using Cons.IH by blast
  have bx'': "bx' \<noteq> None"
  proof (cases rest)
    case Nil
    with rest show ?thesis by auto
  next
    case (Cons a list)
    with bx' show ?thesis by simp
  qed
  have "render_lines (svg_callbacks env w) w n cc (line # rest) ypos bx (Some d)
      = Inr (y', bx', Some d')"
    by (simp only: render_lines.simps Let_def pm qz rest sum.case prod.case)
  with bx'' show ?case by blast
qed

lemma svg_render_succeeds:
  assumes "code \<noteq> []" and "font_size w = 0 \<or> text w = [] \<or> dpi w \<noteq> 0"
  shows "\<exists>out d. SVGWriter_render env w code st = Inr (out, Some d)"
proof -
  obtain line0 rest where code: "code = line0 # rest" using assms(1) by (cases code) auto
  have "\<not> isl (calculate_size w (int (length line0)) (int (length (line0 # rest))) (dpi w))"
    using assms(2) by (auto simp: calculate_size_def calculate_size_mm_def Let_def)
  then obtain wd ht where cs: "calculate_size w (int (length line0))
      (int (length (line0 # rest))) (dpi w) = Inr (wd, ht)"
    by (cases "calculate_size w (int (length line0)) (int (length (line0 # rest))) (dpi w)")
      auto
  have "\<exists>d0. svg_init env w code st = Inr (Some d0)"
    unfolding svg_init_def code list.case cs sum.case prod.case by blast
  then obtain d0 where init: "svg_init env w code st = Inr (Some d0)" by blast
  obtain y' bx' d' where lines: "render_lines (svg_callbacks env w) w (length code) 0 code 1 None
      (Some d0) = Inr (y', bx', Some d')" and "bx' \<noteq> None"
    using svg_render_lines_ok[of env w "length code" 0 code 1 None d0] assms(1) by auto
  then obtain bxs bxe where bx: "bx' = Some (bxs, bxe)" by (cases bx') auto
  have cbs: "initialize (svg_callbacks env w) = Some (svg_init env w)"
    "paint_text (svg_callbacks env w) = Some (svg_create_text env w)"
    "finish (svg_callbacks env w) = Some (svg_finish env w)"
    by (simp_all add: svg_callbacks_def)
  show ?thesis
    by (simp add: SVGWriter_render_def render_def cbs init lines bx
        svg_create_text_def svg_finish_def Let_def)
qed

text \<open>
  Claim C9. The result of rendering a module sequence through the SVG writer, the
  serialised document together with the document the writer keeps, does not depend
  on the document left behind by an earlier rendering: \<open>_init\<close> replaces it. So a
  second rendering of the same module sequence with the same options returns the
  same output as the first. For a sequence with at least one line (and a resolution
  that is not zero when a text is printed) the rendering returns an output. The
  serialisers and the number formatting are functions of their arguments.
\<close>

theorem C9_svg_render_deterministic:
  "SVGWriter_render env w code st1 = SVGWriter_render env w code st2
   \<and> (SVGWriter_render env w code st1 = Inr (out, st') \<longrightarrow>
        SVGWriter_render env w code st' = Inr (out, st'))
   \<and> (code \<noteq> [] \<and> (font_size w = 0 \<or> text w = [] \<or> dpi w \<noteq> 0) \<longrightarrow>
        (\<exists>out d. SVGWriter_render env w code st1 = Inr (out, Some d)))"
proof -
  have eq: "SVGWriter_render env w code s = SVGWriter_render env w code t" for s t
    unfolding SVGWriter_render_def
    by (rule render_initialize_state[where f = "svg_init env w"])
       (simp_all add: svg_callbacks_def svg_init_state)
  show ?thesis
  proof (intro conjI impI)
    show "SVGWriter_render env w code st1 = SVGWriter_render env w code st2"
      by (rule eq)
  next
    assume "SVGWriter_render env w code st1 = Inr (out, st')"
    then show "SVGWriter_render env w code st' = Inr (out, st')"
      using eq[of st' st1] by simp
  next
    assume "code \<noteq> [] \<and> (font_size w = 0 \<or> text w = [] \<or> dpi w \<noteq> 0)"
    then show "\<exists>out d. SVGWriter_render env w code st1 = Inr (out, Some d)"
      using svg_render_succeeds[of code w env st1] by blast
  qed
qed

theorem C9_svg_render_deterministic_witness:
  "\<not> isl (SVGWriter_render env0 svg_default code2 None)
   \<and> SVGWriter_render env0 svg_default code2
        (snd (projr (SVGWriter_render env0 svg_default code2 None)))
       = SVGWriter_render env0 svg_default code2 None"
proof -
  have h: "code2 \<noteq> [] \<and> (font_size svg_default = 0 \<or> text svg_default = []
          \<or> dpi svg_default \<noteq> 0)"
    by (simp add: code2_def svg_default_def)
  note c9 = C9_svg_render_deterministic[of env0 svg_default code2 None
      "snd (projr (SVGWriter_render env0 svg_default code2 None))"]
  from c9 h obtain out d where "SVGWriter_render env0 svg_default code2 None = Inr (out, Some d)"
    by blast
  then have ok: "\<not> isl (SVGWriter_render env0 svg_default code2 None)" by simp
  from c9 have "SVGWriter_render env0 svg_default code2 None
      = SVGWriter_render env0 svg_default code2
          (snd (projr (SVGWriter_render env0 svg_default code2 None)))"
    by (rule conjunct1)
  with ok show ?thesis by simp
qed

section \<open>Writing a barcode to a file: proofs\<close>

text \<open>
  Claim C10. \<open>options\<close> is neither a parameter of \<open>Barcode.write\<close> nor a global of its
  module; unless the interpreter's builtins bind the name, every call of \<open>write\<close> raises
  a NameError for it, whatever the file and the text are, and leaves the file as it
  was: nothing is rendered and nothing is written.
\<close>

theorem C10_write_raises_NameError:
  assumes "''options'' \<notin> set (builtin_names env)"
  shows "Barcode_write env fp text_arg = (Some (NameError ''options''), fp)"
  using assms
  by (simp add: Barcode_write_def name_is_bound_def write_param_names_def
      base_module_names_def)

theorem C10_write_raises_NameError_witness:
  "Barcode_write write_env0 [] (Some ''12'') = (Some (NameError ''options''), [])
   \<and> \<not> isl (render_call write_env0 (Some ''12''))"
proof -
  have "''options'' \<notin> set (builtin_names write_env0)"
    by (simp add: write_env0_def)
  from C10_write_raises_NameError[OF this, of "[]" "Some ''12''"]
  show ?thesis by (simp add: write_env0_def)
qed

section \<open>Size of the image in double arithmetic: proofs\<close>

lemma rr_gt1: "1 < rr" by (simp add: rr_def)

lemma rr_pow20: "rr ^ 20 \<le> 1 + 1 / 2 ^ 40"
proof -
  define u :: real where "u = 1 / 2 ^ 53"
  have b: "1 + real 20 * (- u) \<le> (1 + (- u)) ^ 20"
    by (rule Bernoulli_inequality) (simp add: u_def)
  have pos: "(0::real) < 1 - 20 * u" by (simp add: u_def)
  have "rr ^ 20 = 1 / (1 - u) ^ 20" by (simp only: rr_def u_def power_one_over)
  also have "\<dots> \<le> 1 / (1 - 20 * u)"
    using b pos by (intro divide_left_mono) simp_all
  also have "\<dots> \<le> 1 + 1 / 2 ^ 40" by (simp add: u_def)
  finally show ?thesis .
qed

lemma rr_pow: "k \<le> 20 \<Longrightarrow> rr ^ k \<le> 1 + 1 / 2 ^ 40"
proof -
  assume "k \<le> 20"
  then have "rr ^ k \<le> rr ^ 20" using rr_gt1 by (intro power_increasing) simp_all
  then show ?thesis using rr_pow20 by simp
qed

lemma rr_pow_ge1: "1 \<le> rr ^ k"
  using rr_gt1 by (intro one_le_power) simp

lemma rr_pos: "0 < rr" using rr_gt1 by simp

lemma rr_pow_pos: "0 < rr ^ k" using rr_pos by simp

lemma rr_pow_le2: "k \<le> 20 \<Longrightarrow> rr ^ k \<le> 2"
  using rr_pow[of k] by simp

lemma tracks_nonneg: "tracks k e a b \<Longrightarrow> 0 \<le> a"
proof -
  assume t: "tracks k e a b"
  then have "0 \<le> a * rr ^ k" by (simp add: tracks_def)
  then show ?thesis using rr_pow_pos[of k] by (simp add: zero_le_mult_iff)
qed

lemma tracks_zero: "tracks k e a 0 \<Longrightarrow> a = 0"
  using tracks_nonneg[of k e a 0] by (simp add: tracks_def)

lemma tracks_exact:
  "0 \<le> b \<Longrightarrow> b = 0 \<or> (1 / 2 ^ e \<le> b \<and> b \<le> 2 ^ e) \<Longrightarrow> tracks 0 e b b"
  by (simp add: tracks_def)

lemma tracks_mono:
  assumes t: "tracks j e a b" and jk: "j \<le> k" and ef: "e \<le> f"
  shows "tracks k f a b"
proof -
  have a: "0 \<le> a" using t by (rule tracks_nonneg)
  have b: "0 \<le> b" using t by (simp add: tracks_def)
  have p: "rr ^ j \<le> rr ^ k" using jk rr_gt1 by (intro power_increasing) simp_all
  have 1: "b \<le> a * rr ^ k"
  proof -
    have "b \<le> a * rr ^ j" using t by (simp add: tracks_def)
    also have "\<dots> \<le> a * rr ^ k" using p a by (rule mult_left_mono)
    finally show ?thesis .
  qed
  have 2: "a \<le> b * rr ^ k"
  proof -
    have "a \<le> b * rr ^ j" using t by (simp add: tracks_def)
    also have "\<dots> \<le> b * rr ^ k" using p b by (rule mult_left_mono)
    finally show ?thesis .
  qed
  have q: "(2::real) ^ e \<le> 2 ^ f" using ef by (intro power_increasing) simp_all
  have 3: "b = 0 \<or> (1 / 2 ^ f \<le> b \<and> b \<le> 2 ^ f)"
  proof (cases "b = 0")
    case True then show ?thesis by simp
  next
    case False
    then have lo: "1 / 2 ^ e \<le> b" and hi: "b \<le> 2 ^ e" using t by (simp_all add: tracks_def)
    have "1 / (2::real) ^ f \<le> 1 / 2 ^ e" using q by (intro divide_left_mono) simp_all
    then have lo': "1 / 2 ^ f \<le> b" using lo by (rule order_trans)
    have hi': "b \<le> 2 ^ f" using hi q by (rule order_trans)
    show ?thesis using lo' hi' by blast
  qed
  show ?thesis using b 1 2 3 by (simp add: tracks_def)
qed

lemma one_plus_u_le_rr: "1 + 1 / 2 ^ 53 \<le> rr" by (simp add: rr_def)

lemma one_minus_u_rr: "(1 - 1 / 2 ^ 53) * rr = 1" by (simp add: rr_def)

lemma tracks_round:
  assumes dr: "double_rounding fl" and t: "tracks k e a b"
    and k: "k \<le> 20" and e: "e \<le> 1000"
  shows "tracks (Suc k) e (fl a) b"
proof (cases "b = 0")
  case True
  with t have "a = 0" using tracks_zero by blast
  moreover have "fl 0 = 0" using dr by (simp add: double_rounding_def)
  ultimately show ?thesis using True by (simp add: tracks_def)
next
  case False
  have a0: "0 \<le> a" using t by (rule tracks_nonneg)
  have b0: "0 \<le> b" and ba: "b \<le> a * rr ^ k" and ab: "a \<le> b * rr ^ k"
    and lo: "1 / 2 ^ e \<le> b" and hi: "b \<le> 2 ^ e"
    using t False by (simp_all add: tracks_def)
  have r2: "rr ^ k \<le> 2" using k by (rule rr_pow_le2)
  have e1: "(2::real) ^ e \<le> 2 ^ 1000" using e by (intro power_increasing) simp_all
  have a_hi: "a \<le> 2 ^ 1023"
  proof -
    have "a \<le> b * 2" using ab r2 b0 by (meson mult_left_mono order_trans)
    also have "\<dots> \<le> 2 ^ 1000 * 2" using hi e1 by simp
    also have "\<dots> \<le> (2::real) ^ 1023" by simp
    finally show ?thesis .
  qed
  have a_lo: "1 / 2 ^ 1022 \<le> a"
  proof -
    have "1 / (2::real) ^ 1000 \<le> 1 / 2 ^ e" using e1 by (intro divide_left_mono) simp_all
    then have "1 / 2 ^ 1000 \<le> b" using lo by (rule order_trans)
    also have "b \<le> a * 2" using ba r2 a0 by (meson mult_left_mono order_trans)
    finally have "1 / 2 ^ 1000 / 2 \<le> a" by simp
    moreover have "1 / (2::real) ^ 1022 \<le> 1 / 2 ^ 1000 / 2" by simp
    ultimately show ?thesis by (rule order_trans[rotated])
  qed
  have ax: "\<bar>a\<bar> = a" using a0 by (rule abs_of_nonneg)
  from dr have "1 / 2 ^ 1022 \<le> \<bar>a\<bar> \<and> \<bar>a\<bar> \<le> 2 ^ 1023 \<longrightarrow> \<bar>fl a - a\<bar> \<le> \<bar>a\<bar> / 2 ^ 53"
    unfolding double_rounding_def by blast
  then have "\<bar>fl a - a\<bar> \<le> a / 2 ^ 53"
    unfolding ax using a_lo a_hi by blast
  then have h: "\<bar>fl a - a\<bar> \<le> a * (1 / 2 ^ 53)" by simp
  have up: "fl a \<le> a * (1 + 1 / 2 ^ 53)"
  proof -
    have "fl a \<le> a + a * (1 / 2 ^ 53)" using h by linarith
    then show ?thesis by (simp only: distrib_left mult_1_right)
  qed
  have dn: "a * (1 - 1 / 2 ^ 53) \<le> fl a"
  proof -
    have "a - a * (1 / 2 ^ 53) \<le> fl a" using h by linarith
    then show ?thesis by (simp only: right_diff_distrib mult_1_right)
  qed
  have fa0: "0 \<le> fl a"
  proof -
    have "0 \<le> a * (1 - 1 / 2 ^ 53)" using a0 by simp
    then show ?thesis using dn by simp
  qed
  have 1: "fl a \<le> b * rr ^ Suc k"
  proof -
    have "fl a \<le> a * rr" using up one_plus_u_le_rr a0
      by (meson mult_left_mono order_trans)
    also have "\<dots> \<le> (b * rr ^ k) * rr" using ab rr_pos by (simp add: mult_right_mono)
    finally show ?thesis by (simp add: mult_ac)
  qed
  have 2: "b \<le> fl a * rr ^ Suc k"
  proof -
    have "a = a * ((1 - 1 / 2 ^ 53) * rr)" by (simp only: one_minus_u_rr mult_1_right)
    also have "\<dots> = (a * (1 - 1 / 2 ^ 53)) * rr" by (simp only: mult.assoc)
    also have "\<dots> \<le> fl a * rr" using dn rr_pos by (simp add: mult_right_mono)
    finally have "a \<le> fl a * rr" .
    then have "a * rr ^ k \<le> (fl a * rr) * rr ^ k"
      using rr_pow_pos[of k] by (simp add: mult_right_mono)
    with ba show ?thesis by (simp add: mult_ac)
  qed
  show ?thesis using b0 1 2 lo hi by (simp add: tracks_def)
qed

lemma tracks_add:
  assumes t1: "tracks k e a b" and t2: "tracks k e c d"
  shows "tracks k (Suc e) (a + c) (b + d)"
proof -
  have b0: "0 \<le> b" and ba: "b \<le> a * rr ^ k" and ab: "a \<le> b * rr ^ k"
    and rb: "b = 0 \<or> (1 / 2 ^ e \<le> b \<and> b \<le> 2 ^ e)"
    using t1 by (simp_all add: tracks_def)
  have d0: "0 \<le> d" and dc: "d \<le> c * rr ^ k" and cd: "c \<le> d * rr ^ k"
    and rd: "d = 0 \<or> (1 / 2 ^ e \<le> d \<and> d \<le> 2 ^ e)"
    using t2 by (simp_all add: tracks_def)
  have 1: "b + d \<le> (a + c) * rr ^ k" using ba dc by (simp add: distrib_right)
  have 2: "a + c \<le> (b + d) * rr ^ k" using ab cd by (simp add: distrib_right)
  have p: "(0::real) < 2 ^ e" by simp
  have half: "1 / (2::real) ^ Suc e \<le> 1 / 2 ^ e"
    by (intro divide_left_mono) simp_all
  have bh: "b \<le> 2 ^ e" using rb p by auto
  have dh: "d \<le> 2 ^ e" using rd p by auto
  have hi: "b + d \<le> 2 ^ Suc e" using bh dh by simp
  have lo: "b + d = 0 \<or> 1 / 2 ^ Suc e \<le> b + d"
  proof (cases "b = 0")
    case True
    show ?thesis
    proof (cases "d = 0")
      case True with \<open>b = 0\<close> show ?thesis by simp
    next
      case False
      then have "1 / 2 ^ e \<le> d" using rd by simp
      with half have "1 / 2 ^ Suc e \<le> d" by (rule order_trans)
      with True show ?thesis by simp
    qed
  next
    case False
    then have "1 / 2 ^ e \<le> b" using rb by simp
    with half have "1 / 2 ^ Suc e \<le> b" by (rule order_trans)
    then have "1 / 2 ^ Suc e \<le> b + d" using d0 by linarith
    then show ?thesis by simp
  qed
  have 0: "0 \<le> b + d" using b0 d0 by simp
  show ?thesis unfolding tracks_def using 0 1 2 lo hi by blast
qed

lemma tracks_mult:
  assumes t1: "tracks j e a b" and t2: "tracks k f c d"
  shows "tracks (j + k) (e + f) (a * c) (b * d)"
proof -
  have a0: "0 \<le> a" using t1 by (rule tracks_nonneg)
  have c0: "0 \<le> c" using t2 by (rule tracks_nonneg)
  have b0: "0 \<le> b" and ba: "b \<le> a * rr ^ j" and ab: "a \<le> b * rr ^ j"
    and rb: "b = 0 \<or> (1 / 2 ^ e \<le> b \<and> b \<le> 2 ^ e)"
    using t1 by (simp_all add: tracks_def)
  have d0: "0 \<le> d" and dc: "d \<le> c * rr ^ k" and cd: "c \<le> d * rr ^ k"
    and rd: "d = 0 \<or> (1 / 2 ^ f \<le> d \<and> d \<le> 2 ^ f)"
    using t2 by (simp_all add: tracks_def)
  have 1: "b * d \<le> (a * c) * rr ^ (j + k)"
  proof -
    have "b * d \<le> (a * rr ^ j) * (c * rr ^ k)"
      using ba dc b0 d0 by (intro mult_mono) (auto intro: order_trans)
    then show ?thesis by (simp add: power_add mult_ac)
  qed
  have 2: "a * c \<le> (b * d) * rr ^ (j + k)"
  proof -
    have "a * c \<le> (b * rr ^ j) * (d * rr ^ k)"
      using ab cd a0 c0 by (intro mult_mono) (auto intro: order_trans)
    then show ?thesis by (simp add: power_add mult_ac)
  qed
  have 3: "b * d = 0 \<or> (1 / 2 ^ (e + f) \<le> b * d \<and> b * d \<le> 2 ^ (e + f))"
  proof (cases "b = 0 \<or> d = 0")
    case True then show ?thesis by auto
  next
    case False
    then have lb: "1 / 2 ^ e \<le> b" and hb: "b \<le> 2 ^ e"
      and ld: "1 / 2 ^ f \<le> d" and hd: "d \<le> 2 ^ f"
      using rb rd by simp_all
    have "(1 / 2 ^ e) * (1 / 2 ^ f) \<le> b * d"
      using lb ld b0 by (intro mult_mono) simp_all
    then have lo: "1 / 2 ^ (e + f) \<le> b * d" by (simp add: power_add)
    have "b * d \<le> 2 ^ e * 2 ^ f" using hb hd b0 d0 by (intro mult_mono) simp_all
    then have hi: "b * d \<le> 2 ^ (e + f)" by (simp add: power_add)
    show ?thesis using lo hi by blast
  qed
  have 0: "0 \<le> b * d" using b0 d0 by simp
  show ?thesis unfolding tracks_def using 0 1 2 3 by blast
qed

lemma tracks_inverse:
  assumes t: "tracks k f c d" and d: "d \<noteq> 0"
  shows "tracks k f (1 / c) (1 / d)"
proof -
  have d0: "0 < d" using t d by (simp add: tracks_def)
  have dc: "d \<le> c * rr ^ k" and cd: "c \<le> d * rr ^ k"
    and lo: "1 / 2 ^ f \<le> d" and hi: "d \<le> 2 ^ f"
    using t d by (simp_all add: tracks_def)
  have c0: "0 < c"
  proof -
    have "0 < c * rr ^ k" using d0 dc by linarith
    then show ?thesis by (rule zero_less_mult_pos2[OF _ rr_pow_pos])
  qed
  have 1: "1 / d \<le> (1 / c) * rr ^ k"
    using cd c0 d0 by (simp add: field_simps)
  have 2: "1 / c \<le> (1 / d) * rr ^ k"
    using dc c0 d0 by (simp add: field_simps)
  have 3: "1 / 2 ^ f \<le> 1 / d"
    using hi d0 by (intro divide_left_mono) simp_all
  have 4: "1 / d \<le> 2 ^ f"
  proof -
    have "1 \<le> d * 2 ^ f" using lo by (simp add: field_simps)
    then show ?thesis using d0 by (simp add: field_simps)
  qed
  have 0: "0 \<le> 1 / d" using d0 by simp
  show ?thesis unfolding tracks_def using 0 1 2 3 4 by blast
qed

lemma tracks_divide:
  assumes t1: "tracks j e a b" and t2: "tracks k f c d" and d: "d \<noteq> 0"
  shows "tracks (j + k) (e + f) (a / c) (b / d)"
  using tracks_mult[OF t1 tracks_inverse[OF t2 d]] by simp

lemma tracks_pos: "tracks k e a b \<Longrightarrow> 0 < b \<Longrightarrow> 0 < a"
proof -
  assume t: "tracks k e a b" and b: "0 < b"
  then have "0 < a * rr ^ k" by (simp add: tracks_def)
  then show ?thesis by (rule zero_less_mult_pos2[OF _ rr_pow_pos])
qed

lemma tracks_floor:
  assumes t: "tracks k e a b" and k: "k \<le> 20" and st: "floor_stable b"
  shows "py_int a = \<lfloor>b\<rfloor>"
proof -
  define eps :: real where "eps = 1 + 1 / 2 ^ 40"
  have eps: "0 < eps" by (simp add: eps_def)
  have rk: "rr ^ k \<le> eps" unfolding eps_def using k by (rule rr_pow)
  have a0: "0 \<le> a" using t by (rule tracks_nonneg)
  have b0: "0 \<le> b" and ba: "b \<le> a * rr ^ k" and ab: "a \<le> b * rr ^ k"
    using t by (simp_all add: tracks_def)
  have s1: "of_int \<lfloor>b\<rfloor> * eps \<le> b" and s2: "b * eps < of_int \<lfloor>b\<rfloor> + 1"
    using st by (simp_all add: floor_stable_def eps_def)
  have "of_int \<lfloor>b\<rfloor> * eps \<le> a * rr ^ k" using s1 ba by (rule order_trans)
  also have "\<dots> \<le> a * eps" using rk a0 by (rule mult_left_mono)
  finally have lo: "of_int \<lfloor>b\<rfloor> \<le> a" using eps by simp
  have "a \<le> b * eps" using ab rk b0 by (meson mult_left_mono order_trans)
  then have hi: "a < of_int \<lfloor>b\<rfloor> + 1" using s2 by linarith
  have "\<lfloor>a\<rfloor> = \<lfloor>b\<rfloor>" using lo hi by (rule floor_unique)
  then show ?thesis using a0 by (simp add: py_int_def)
qed

lemma tracks_round':
  assumes dr: "double_rounding fl" and t: "tracks j e a b"
    and jk: "j < k" and k: "k \<le> 20" and ef: "e \<le> f" and f: "f \<le> 1000"
  shows "tracks k f (fl a) b"
proof -
  have j20: "j \<le> 20" using jk k by linarith
  have e1000: "e \<le> 1000" using ef f by linarith
  have 1: "tracks (Suc j) e (fl a) b" using dr t j20 e1000 by (rule tracks_round)
  have sk: "Suc j \<le> k" using jk by linarith
  show ?thesis using 1 sk ef by (rule tracks_mono)
qed

lemma tracks_add':
  assumes t1: "tracks j1 e1 a b" and t2: "tracks j2 e2 c d"
    and j1: "j1 \<le> k" and j2: "j2 \<le> k" and e1: "e1 < f" and e2: "e2 < f"
  shows "tracks k f (a + c) (b + d)"
proof -
  obtain g where f: "f = Suc g" using e1 by (cases f) auto
  have g1: "e1 \<le> g" using e1 f by linarith
  have g2: "e2 \<le> g" using e2 f by linarith
  have 1: "tracks k g a b" using t1 j1 g1 by (rule tracks_mono)
  have 2: "tracks k g c d" using t2 j2 g2 by (rule tracks_mono)
  show ?thesis unfolding f using 1 2 by (rule tracks_add)
qed

lemma tracks_mult':
  assumes t1: "tracks j1 e1 a b" and t2: "tracks j2 e2 c d"
    and j: "j1 + j2 \<le> k" and e: "e1 + e2 \<le> f"
  shows "tracks k f (a * c) (b * d)"
proof -
  have "tracks (j1 + j2) (e1 + e2) (a * c) (b * d)" using t1 t2 by (rule tracks_mult)
  then show ?thesis using j e by (rule tracks_mono)
qed

lemma tracks_divide':
  assumes t1: "tracks j1 e1 a b" and t2: "tracks j2 e2 c d" and d: "d \<noteq> 0"
    and j: "j1 + j2 \<le> k" and e: "e1 + e2 \<le> f"
  shows "tracks k f (a / c) (b / d)"
proof -
  have "tracks (j1 + j2) (e1 + e2) (a / c) (b / d)" using t1 t2 d by (rule tracks_divide)
  then show ?thesis using j e by (rule tracks_mono)
qed

lemma tracks_moderate: "moderate x \<Longrightarrow> tracks 0 64 x x"
proof -
  assume m: "moderate x"
  have "(0::real) < 1 / 2 ^ 64" by simp
  then have "0 \<le> x" using m unfolding moderate_def by linarith
  then show ?thesis using m unfolding moderate_def by (intro tracks_exact)
qed

lemma tracks_count: "moderate_count i \<Longrightarrow> tracks 0 64 (of_int i) (of_int i)"
proof -
  assume m: "moderate_count i"
  then have i0: "0 \<le> i" and i1: "i \<le> 2 ^ 64" unfolding moderate_count_def by blast+
  have "(of_int i :: real) \<le> of_int (2 ^ 64)" using i1 by (simp only: of_int_le_iff)
  then have hi: "(of_int i :: real) \<le> 2 ^ 64" by (simp only: of_int_power of_int_numeral)
  have r0: "(0::real) \<le> of_int i" using i0 by (simp only: of_int_0_le_iff)
  have small: "1 / 2 ^ 64 \<le> (1::real)" by (simp add: divide_le_eq_1)
  have "of_int i = (0::real) \<or> (1 / 2 ^ 64 \<le> (of_int i :: real) \<and> (of_int i :: real) \<le> 2 ^ 64)"
  proof (cases "i = 0")
    case True then show ?thesis by (simp only: of_int_0 simp_thms)
  next
    case False
    then have "1 \<le> i" using i0 by linarith
    then have "(1::real) \<le> of_int i" by (simp only: of_int_1_le_iff)
    with small have "1 / 2 ^ 64 \<le> (of_int i :: real)" by (rule order_trans)
    then show ?thesis using hi by (intro disjI2 conjI)
  qed
  with r0 show ?thesis by (rule tracks_exact)
qed

lemma splitlines_from_nonempty:
  "cur \<noteq> [] \<or> s \<noteq> [] \<Longrightarrow> splitlines_from cur s \<noteq> []"
  by (induction cur s rule: splitlines_from.induct) auto

lemma splitlines_nonempty: "s \<noteq> [] \<Longrightarrow> splitlines s \<noteq> []"
  by (simp add: splitlines_def splitlines_from_nonempty)

lemma tracks_2: "tracks 0 1 2 2"
  by (rule tracks_exact) simp_all

lemma tracks_200: "tracks 0 8 200 200"
  by (rule tracks_exact) simp_all

lemma tracks_254: "tracks 0 5 25.4 25.4"
  by (rule tracks_exact) simp_all

lemma tracks_pt: "tracks 0 2 0.352777778 0.352777778"
  by (rule tracks_exact) simp_all

lemma tracks_mm2px:
  assumes dr: "double_rounding fl" and t: "tracks 10 206 a b"
    and r: "moderate res"
  shows "tracks 13 275 (mm2px_fp fl a res) (mm2px b res)"
proof -
  have tr: "tracks 0 64 res res" using r by (rule tracks_moderate)
  have p: "tracks 11 270 (fl (a * res)) (b * res)"
    by (rule tracks_round'[OF dr tracks_mult'[OF t tr, of 10 270]]) simp_all
  have c: "tracks 1 5 (fl 25.4) 25.4"
    by (rule tracks_round'[OF dr tracks_254]) simp_all
  have q: "tracks 12 275 (fl (a * res) / fl 25.4) (b * res / 25.4)"
    by (rule tracks_divide'[OF p c]) simp_all
  have "tracks 13 275 (fl (fl (a * res) / fl 25.4)) (b * res / 25.4)"
    by (rule tracks_round'[OF dr q]) simp_all
  then show ?thesis by (simp only: mm2px_fp_def mm2px_def)
qed

lemma width_tracks:
  assumes dr: "double_rounding fl" and mi: "moderate_inputs w m n res"
  shows "tracks 10 206
           (fl (fl (2 * quiet_zone w) + fl (fl (of_int m) * module_width w)))
           (2 * quiet_zone w + of_int m * module_width w)"
proof -
  from mi have q: "moderate (quiet_zone w)" and mw: "moderate (module_width w)"
    and m: "moderate_count m"
    unfolding moderate_inputs_def by blast+
  have t1: "tracks 1 65 (fl (2 * quiet_zone w)) (2 * quiet_zone w)"
    by (rule tracks_round'[OF dr tracks_mult'[OF tracks_2 tracks_moderate[OF q], of 0 65]])
      simp_all
  have tm: "tracks 1 64 (fl (of_int m)) (of_int m)"
    by (rule tracks_round'[OF dr tracks_count[OF m]]) simp_all
  have t2: "tracks 2 128 (fl (fl (of_int m) * module_width w)) (of_int m * module_width w)"
    by (rule tracks_round'[OF dr tracks_mult'[OF tm tracks_moderate[OF mw], of 1 128]])
      simp_all
  have "tracks 2 129 (fl (2 * quiet_zone w) + fl (fl (of_int m) * module_width w))
          (2 * quiet_zone w + of_int m * module_width w)"
    by (rule tracks_add'[OF t1 t2]) simp_all
  then show ?thesis by (rule tracks_round'[OF dr]) simp_all
qed

lemma base_height_tracks:
  assumes dr: "double_rounding fl" and mi: "moderate_inputs w m n res"
  shows "tracks 3 129
           (fl (2 + fl (module_height w * fl (of_int n))))
           (2 + module_height w * of_int n)"
proof -
  from mi have mh: "moderate (module_height w)" and n: "moderate_count n"
    unfolding moderate_inputs_def by blast+
  have tn: "tracks 1 64 (fl (of_int n)) (of_int n)"
    by (rule tracks_round'[OF dr tracks_count[OF n]]) simp_all
  have ha: "tracks 2 128 (fl (module_height w * fl (of_int n))) (module_height w * of_int n)"
    by (rule tracks_round'[OF dr tracks_mult'[OF tracks_moderate[OF mh] tn, of 1 128]])
      simp_all
  have "tracks 2 129 (2 + fl (module_height w * fl (of_int n)))
          (2 + module_height w * of_int n)"
    by (rule tracks_add'[OF tracks_2 ha]) simp_all
  then show ?thesis by (rule tracks_round'[OF dr]) simp_all
qed

lemma divisor_tracks:
  assumes dr: "double_rounding fl" and mi: "moderate_inputs w m n res"
  shows "tracks 2 73 (fl (fl (2 * res) / 200)) (2 * res / 200)"
proof -
  from mi have "1 / 2 ^ 64 \<le> res \<and> res \<le> 2 ^ 64"
    unfolding moderate_inputs_def by blast
  then have r: "moderate res" unfolding moderate_def by blast
  have d1: "tracks 1 65 (fl (2 * res)) (2 * res)"
    by (rule tracks_round'[OF dr tracks_mult'[OF tracks_2 tracks_moderate[OF r], of 0 65]])
      simp_all
  have "tracks 1 73 (fl (2 * res) / 200) (2 * res / 200)"
    by (rule tracks_divide'[OF d1 tracks_200]) simp_all
  then show ?thesis by (rule tracks_round'[OF dr]) simp_all
qed

lemma text_height_tracks:
  assumes dr: "double_rounding fl" and mi: "moderate_inputs w m n res"
    and tne: "text w \<noteq> []"
    and h: "tracks 3 129 height hx"
  shows "tracks 10 206
           (fl (fl (height
                 + fl (fl (fl (pt2mm_fp fl (font_size w) / fl (fl (2 * res) / 200))
                           * fl (of_int (int (length (splitlines (text w))))))
                       + text_distance w))
                + fl (text_line_distance w
                      * fl (of_int (int (length (splitlines (text w))) - 1)))))
           (hx + (pt2mm (font_size w) / (2 * res / 200)
                    * of_int (int (length (splitlines (text w))))
                  + text_distance w)
               + text_line_distance w * of_int (int (length (splitlines (text w))) - 1))"
proof -
  define ntl where "ntl = int (length (splitlines (text w)))"
  from mi have fs: "moderate (font_size w)" and td: "moderate (text_distance w)"
    and tld: "moderate (text_line_distance w)" and c: "moderate_count ntl"
    and rpos: "1 / 2 ^ 64 \<le> res"
    unfolding moderate_inputs_def ntl_def by blast+
  have "splitlines (text w) \<noteq> []" using tne by (rule splitlines_nonempty)
  then have "1 \<le> ntl" unfolding ntl_def by (cases "splitlines (text w)") simp_all
  then have c1: "moderate_count (ntl - 1)"
    using c unfolding moderate_count_def by linarith
  have "(0::real) < 1 / 2 ^ 64" by simp
  then have res0: "2 * res / 200 \<noteq> 0" using rpos by simp
  have pt: "tracks 2 66 (pt2mm_fp fl (font_size w)) (pt2mm (font_size w))"
  proof -
    have p: "tracks 1 2 (fl 0.352777778) 0.352777778"
      by (rule tracks_round'[OF dr tracks_pt]) simp_all
    have "tracks 2 66 (fl (font_size w * fl 0.352777778)) (font_size w * 0.352777778)"
      by (rule tracks_round'[OF dr tracks_mult'[OF tracks_moderate[OF fs] p, of 1 66]])
        simp_all
    then show ?thesis by (simp only: pt2mm_fp_def pt2mm_def)
  qed
  have dv: "tracks 2 73 (fl (fl (2 * res) / 200)) (2 * res / 200)"
    using dr mi by (rule divisor_tracks)
  have q: "tracks 5 139 (fl (pt2mm_fp fl (font_size w) / fl (fl (2 * res) / 200)))
      (pt2mm (font_size w) / (2 * res / 200))"
    by (rule tracks_round'[OF dr tracks_divide'[OF pt dv res0, of 4 139]]) simp_all
  have tl: "tracks 1 64 (fl (of_int ntl)) (of_int ntl)"
    by (rule tracks_round'[OF dr tracks_count[OF c]]) simp_all
  have a: "tracks 7 203
      (fl (fl (pt2mm_fp fl (font_size w) / fl (fl (2 * res) / 200)) * fl (of_int ntl)))
      (pt2mm (font_size w) / (2 * res / 200) * of_int ntl)"
    by (rule tracks_round'[OF dr tracks_mult'[OF q tl, of 6 203]]) simp_all
  have b: "tracks 8 204
      (fl (fl (fl (pt2mm_fp fl (font_size w) / fl (fl (2 * res) / 200)) * fl (of_int ntl))
           + text_distance w))
      (pt2mm (font_size w) / (2 * res / 200) * of_int ntl + text_distance w)"
    by (rule tracks_round'[OF dr tracks_add'[OF a tracks_moderate[OF td], of 7 204]])
      simp_all
  have h1: "tracks 9 205
      (fl (height
           + fl (fl (fl (pt2mm_fp fl (font_size w) / fl (fl (2 * res) / 200)) * fl (of_int ntl))
                 + text_distance w)))
      (hx + (pt2mm (font_size w) / (2 * res / 200) * of_int ntl + text_distance w))"
    by (rule tracks_round'[OF dr tracks_add'[OF h b, of 8 205]]) simp_all
  have tl1: "tracks 1 64 (fl (of_int (ntl - 1))) (of_int (ntl - 1))"
    by (rule tracks_round'[OF dr tracks_count[OF c1]]) simp_all
  have cc: "tracks 2 128 (fl (text_line_distance w * fl (of_int (ntl - 1))))
      (text_line_distance w * of_int (ntl - 1))"
    by (rule tracks_round'[OF dr tracks_mult'[OF tracks_moderate[OF tld] tl1, of 1 128]])
      simp_all
  have "tracks 10 206
      (fl (fl (height
               + fl (fl (fl (pt2mm_fp fl (font_size w) / fl (fl (2 * res) / 200))
                         * fl (of_int ntl))
                     + text_distance w))
           + fl (text_line_distance w * fl (of_int (ntl - 1)))))
      (hx + (pt2mm (font_size w) / (2 * res / 200) * of_int ntl + text_distance w)
          + text_line_distance w * of_int (ntl - 1))"
    by (rule tracks_round'[OF dr tracks_add'[OF h1 cc, of 9 206]]) simp_all
  then show ?thesis unfolding ntl_def .
qed

text \<open>
  Claim C2, as amended. Let the options be of moderate size and not negative, the
  resolution positive, and let every arithmetic result be rounded as doubles are.
  Then \<^verbatim>\<open>calculate_size\<close> returns the pixel sizes of an image that is
  \<open>2 * quiet_zone + modules_per_line * module_width\<close> millimetres wide and
  \<open>2 + number_of_lines * module_height\<close> plus the text block height millimetres tall
  (the height carries a constant margin of 2 mm and no other term), each converted
  by \<open>mm * dpi / 25.4\<close> and truncated, provided these two exact pixel values are not
  within a relative distance of \<open>1 / 2 ^ 40\<close> of an integer. Next to an integer the
  rounding decides the truncation, as \<open>rounding_loses_a_pixel\<close> shows.
\<close>

theorem C2_image_size:
  assumes dr: "double_rounding fl" and mi: "moderate_inputs w m n res"
    and sx: "floor_stable (mm2px (2 * quiet_zone w + of_int m * module_width w) res)"
    and sy: "floor_stable (mm2px (2 + of_int n * module_height w
                                   + text_block_height w res) res)"
  shows "calculate_size_fp fl w m n res =
           Inr (\<lfloor>mm2px (2 * quiet_zone w + of_int m * module_width w) res\<rfloor>,
                \<lfloor>mm2px (2 + of_int n * module_height w + text_block_height w res) res\<rfloor>)"
proof -
  let ?W = "fl (fl (2 * quiet_zone w) + fl (fl (of_int m) * module_width w))"
  let ?H0 = "fl (2 + fl (module_height w * fl (of_int n)))"
  let ?ntl = "int (length (splitlines (text w)))"
  let ?D = "fl (fl (2 * res) / 200)"
  let ?H2 = "fl (fl (?H0
                 + fl (fl (fl (pt2mm_fp fl (font_size w) / ?D) * fl (of_int ?ntl))
                       + text_distance w))
                + fl (text_line_distance w * fl (of_int (?ntl - 1))))"
  let ?X = "mm2px (2 * quiet_zone w + of_int m * module_width w) res"
  let ?Y = "mm2px (2 + of_int n * module_height w + text_block_height w res) res"
  from mi have rb: "1 / 2 ^ 64 \<le> res \<and> res \<le> 2 ^ 64"
    unfolding moderate_inputs_def by blast
  then have r: "moderate res" unfolding moderate_def by blast
  have cm: "module_height w * of_int n = of_int n * module_height w"
    by (rule mult.commute)
  have k13: "(13::nat) \<le> 20" by simp
  have fw: "py_int (mm2px_fp fl ?W res) = \<lfloor>?X\<rfloor>"
    using tracks_mm2px[OF dr width_tracks[OF dr mi] r] k13 sx by (rule tracks_floor)
  have h0: "tracks 3 129 ?H0 (2 + module_height w * of_int n)"
    using dr mi by (rule base_height_tracks)
  show ?thesis
  proof (cases "font_size w \<noteq> 0 \<and> text w \<noteq> []")
    case False
    have mm: "calculate_size_mm_fp fl w m n res = Inr (?W, ?H0)"
      unfolding calculate_size_mm_fp_def Let_def using False by (simp only: if_False)
    have tb0: "text_block_height w res = 0"
      using False by (simp only: text_block_height_def if_False)
    have ex: "2 + module_height w * of_int n
        = 2 + of_int n * module_height w + text_block_height w res"
      by (simp only: cm tb0 add_0_right)
    have "tracks 10 206 ?H0 (2 + module_height w * of_int n)"
      using h0 by (rule tracks_mono) simp_all
    then have "tracks 10 206 ?H0 (2 + of_int n * module_height w + text_block_height w res)"
      by (simp only: ex)
    then have "tracks 13 275 (mm2px_fp fl ?H0 res) ?Y"
      using dr r by (intro tracks_mm2px)
    then have fy: "py_int (mm2px_fp fl ?H0 res) = \<lfloor>?Y\<rfloor>"
      using k13 sy by (rule tracks_floor)
    show ?thesis
      unfolding calculate_size_fp_def mm
      by (simp only: sum.case prod.case fw fy)
  next
    case True
    then have g1: "font_size w \<noteq> 0" and g2: "text w \<noteq> []" by blast+
    have "(0::real) < 1 / 2 ^ 64" by simp
    moreover have "1 / 2 ^ 64 \<le> res" using rb by blast
    ultimately have "0 < res" by (rule less_le_trans)
    then have "0 < 2 * res / 200" by simp
    with divisor_tracks[OF dr mi] have "0 < ?D" by (rule tracks_pos)
    then have d0: "?D \<noteq> 0" by simp
    have mm: "calculate_size_mm_fp fl w m n res = Inr (?W, ?H2)"
      unfolding calculate_size_mm_fp_def Let_def using True d0
      by (simp only: if_True if_False simp_thms)
    have tb: "text_block_height w res
        = pt2mm (font_size w) / (2 * res / 200) * real (length (splitlines (text w)))
          + text_distance w
          + text_line_distance w * (real (length (splitlines (text w))) - 1)"
      using True by (simp only: text_block_height_def if_True simp_thms)
    have ex: "2 + module_height w * of_int n
          + (pt2mm (font_size w) / (2 * res / 200) * of_int ?ntl + text_distance w)
          + text_line_distance w * of_int (?ntl - 1)
        = 2 + of_int n * module_height w + text_block_height w res"
    proof -
      have i1: "(of_int ?ntl :: real) = real (length (splitlines (text w)))"
        by (rule of_int_of_nat_eq)
      have i2: "(of_int (?ntl - 1) :: real) = real (length (splitlines (text w))) - 1"
        by (simp only: of_int_diff of_int_of_nat_eq of_int_1)
      show ?thesis by (simp only: tb cm i1 i2 add.assoc)
    qed
    have "tracks 10 206 ?H2
        (2 + module_height w * of_int n
          + (pt2mm (font_size w) / (2 * res / 200) * of_int ?ntl + text_distance w)
          + text_line_distance w * of_int (?ntl - 1))"
      using dr mi g2 h0 by (rule text_height_tracks)
    then have "tracks 10 206 ?H2 (2 + of_int n * module_height w + text_block_height w res)"
      by (simp only: ex)
    then have "tracks 13 275 (mm2px_fp fl ?H2 res) ?Y"
      using dr r by (intro tracks_mm2px)
    then have fy: "py_int (mm2px_fp fl ?H2 res) = \<lfloor>?Y\<rfloor>"
      using k13 sy by (rule tracks_floor)
    show ?thesis
      unfolding calculate_size_fp_def mm
      by (simp only: sum.case prod.case fw fy)
  qed
qed

lemma double_rounding_round_up: "double_rounding round_up"
proof -
  have "\<bar>round_up x - x\<bar> \<le> \<bar>x\<bar> / 2 ^ 53" for x
  proof -
    have e: "round_up x - x = x * (1 / 2 ^ 53)"
      by (simp only: round_up_def distrib_left mult_1_right add_diff_cancel_left')
    have p: "\<bar>(1::real) / 2 ^ 53\<bar> = 1 / 2 ^ 53" by (rule abs_of_nonneg) simp
    have "\<bar>round_up x - x\<bar> = \<bar>x\<bar> * \<bar>1 / 2 ^ 53\<bar>" unfolding e by (rule abs_mult)
    also have "\<dots> = \<bar>x\<bar> * (1 / 2 ^ 53)" by (simp only: p)
    also have "\<dots> = \<bar>x\<bar> / 2 ^ 53" by (simp only: times_divide_eq_right mult_1_right)
    finally show ?thesis by (rule eq_refl)
  qed
  moreover have "round_up 0 = 0" by (simp add: round_up_def)
  ultimately show ?thesis unfolding double_rounding_def by blast
qed

lemma moderate_inputs_default: "moderate_inputs default_writer 95 1 300"
  by (simp add: moderate_inputs_def moderate_def moderate_count_def default_writer_def
      BaseWriter_init_def splitlines_def)

lemma floor_stable_width: "floor_stable (mm2px (2 * 6.5 + 95 * 0.2) 300)"
proof -
  have f: "\<lfloor>mm2px (2 * 6.5 + 95 * 0.2) 300\<rfloor> = 377" by (simp add: mm2px_def)
  show ?thesis unfolding floor_stable_def f by (simp add: mm2px_def)
qed

lemma floor_stable_height: "floor_stable (mm2px (2 + 1 * 15) 300)"
proof -
  have f: "\<lfloor>mm2px (2 + 1 * 15) 300\<rfloor> = 200" by (simp add: mm2px_def)
  show ?thesis unfolding floor_stable_def f by (simp add: mm2px_def)
qed

theorem C2_image_size_witness:
  "calculate_size_fp round_up default_writer 95 1 300 = Inr (377, 200)"
proof -
  have sx: "floor_stable (mm2px (2 * quiet_zone default_writer
      + of_int 95 * module_width default_writer) 300)"
    using floor_stable_width by (simp add: default_writer_def BaseWriter_init_def)
  have sy: "floor_stable (mm2px (2 + of_int 1 * module_height default_writer
      + text_block_height default_writer 300) 300)"
    using floor_stable_height
    by (simp add: default_writer_def BaseWriter_init_def text_block_height_def)
  show ?thesis
    using C2_image_size[OF double_rounding_round_up moderate_inputs_default sx sy]
    by (simp add: default_writer_def BaseWriter_init_def text_block_height_def mm2px_def)
qed

text \<open>
  Without rounding the model is the one in exact arithmetic, and with a rounding
  that errs downwards an image that is exactly 53 pixels wide and 17 pixels tall
  (default options, 200 modules, one line, 25.4 DPI) comes out one pixel smaller.
\<close>

lemma calculate_size_fp_exact:
  "calculate_size_fp (\<lambda>x. x) w m n res = calculate_size w m n res"
  unfolding calculate_size_fp_def calculate_size_mm_fp_def calculate_size_def
    calculate_size_mm_def mm2px_fp_def mm2px_def pt2mm_fp_def pt2mm_def Let_def
  by simp

lemma rounding_loses_a_pixel:
  "calculate_size_fp round_down default_writer 200 1 25.4 = Inr (52, 16)
   \<and> calculate_size default_writer 200 1 25.4 = Inr (53, 17)"
  by (simp add: calculate_size_fp_def calculate_size_mm_fp_def calculate_size_def
      calculate_size_mm_def mm2px_fp_def mm2px_def round_down_def Let_def
      default_writer_def BaseWriter_init_def py_int_def splitlines_def)

end
